theory Spec2Isabelle
  imports Complex_Main "HOL-Library.AList" "HOL-Library.Log_Nat"
begin

section \<open>Python values\<close>

text \<open>
  The importer (\<^verbatim>\<open>upload_geojson_to_dynamodb.py\<close>) works on the values that the streaming
  JSON decoder yields: \<^verbatim>\<open>None\<close>, booleans, integers, non-integer numbers, strings, lists
  and dictionaries. A non-integer number reaches the importer as a \<^verbatim>\<open>Decimal\<close>, which holds
  the number written in the document exactly; it becomes a float only where the code
  calls \<^verbatim>\<open>float\<close>. A dictionary is an association list whose first binding of a key is the
  one looked up. A Python string is a \<open>string\<close>; characters are those with code points
  below 256.
\<close>

datatype pyval =
    PNone
  | PBool bool
  | PInt int
  | PNum real
  | PStr string
  | PList "pyval list"
  | PDict "(string \<times> pyval) list"

datatype pyexn =
    ZeroDivisionError
  | ValueError
  | TypeError
  | OverflowError
  | AttributeError
  | KeyError
  | IndexError

text \<open>\<^verbatim>\<open>isinstance(x, (int, float, Decimal))\<close>; \<^verbatim>\<open>bool\<close> is a subclass of \<^verbatim>\<open>int\<close>.\<close>

fun is_number :: "pyval \<Rightarrow> bool" where
  "is_number (PBool b) = True"
| "is_number (PInt i) = True"
| "is_number (PNum r) = True"
| "is_number v = False"

text \<open>\<^verbatim>\<open>int(x)\<close> on a finite float: truncation toward zero.\<close>

definition py_int :: "real \<Rightarrow> int" where
  "py_int x = (if 0 \<le> x then \<lfloor>x\<rfloor> else \<lceil>x\<rceil>)"

section \<open>Floats\<close>

text \<open>
  A Python float is an IEEE double: a finite value (given as the real number it denotes),
  an infinity or a NaN.
\<close>

datatype pyfloat = Finite real | PosInf | NegInf | NaN

text \<open>Rounding to the nearest integer, a tie going to the even one.\<close>

definition round_half_even :: "real \<Rightarrow> int" where
  "round_half_even y =
     (let f = \<lfloor>y\<rfloor>; d = y - of_int f
      in if d < 1 / 2 then f else if 1 / 2 < d then f + 1 else if even f then f else f + 1)"

text \<open>The binary exponent of a number other than zero: 2 ^ e \<le> |x| < 2 ^ (e + 1).\<close>

definition expo :: "real \<Rightarrow> int" where
  "expo x = (if 1 \<le> \<bar>x\<bar> then bitlen \<lfloor>\<bar>x\<bar>\<rfloor> - 1 else - bitlen (\<lceil>1 / \<bar>x\<bar>\<rceil> - 1))"

text \<open>
  The exponent of the spacing of the doubles around \<open>x\<close>: 53 significant bits, and the
  fixed spacing 2 ^ -1074 below the smallest normal number 2 ^ -1022.
\<close>

definition ulp_exp :: "real \<Rightarrow> int" where
  "ulp_exp x = max (expo x) (- 1022) - 52"

text \<open>The multiple of the spacing nearest to \<open>x\<close>, ties to even.\<close>

definition round_double :: "real \<Rightarrow> real" where
  "round_double x = of_int (round_half_even (x / 2 powi ulp_exp x)) * 2 powi ulp_exp x"

text \<open>
  The double that a correctly rounded operation returns for the exact result \<open>x\<close>: the
  rounded value, or an infinity when that is 2 ^ 1024 or more in magnitude.
\<close>

definition to_double :: "real \<Rightarrow> pyfloat" where
  "to_double x =
     (let r = round_double x
      in if 2 ^ 1024 \<le> r then PosInf else if r \<le> - (2 ^ 1024) then NegInf else Finite r)"

text \<open>Magnitudes from this bound on round to an infinity.\<close>

definition dbl_limit :: real where
  "dbl_limit = 2 ^ 1024 - 2 ^ 970"

section \<open>Coordinate decimation\<close>

text \<open>\<^verbatim>\<open>xs[::step]\<close> for a positive step: the entries at positions 0, step, 2 step, ...\<close>

fun every_nth :: "nat \<Rightarrow> 'a list \<Rightarrow> 'a list" where
  "every_nth k [] = []"
| "every_nth k (x # xs) = x # every_nth k (drop (k - 1) xs)"

text \<open>
  \<^verbatim>\<open>max(1, int(1/factor))\<close> for a finite float \<open>factor\<close>. The division raises when the factor
  is zero; its result is a float, and \<^verbatim>\<open>int\<close> raises \<^verbatim>\<open>OverflowError\<close> on an infinity.
\<close>

definition stride :: "real \<Rightarrow> pyexn + nat" where
  "stride factor =
     (if factor = 0 then Inl ZeroDivisionError
      else case to_double (1 / factor) of
             Finite q \<Rightarrow> Inr (nat (max 1 (py_int q)))
           | other \<Rightarrow> Inl OverflowError)"

text \<open>
  \<^verbatim>\<open>[coordinates[0]] + coordinates[1:-1:step] + [coordinates[-1]]\<close>, used on lists of more
  than two entries only.
\<close>

definition thin :: "nat \<Rightarrow> 'a list \<Rightarrow> 'a list" where
  "thin step cs = [hd cs] @ every_nth step (butlast (tl cs)) @ [last cs]"

text \<open>\<^verbatim>\<open>[f(c) for c in cs]\<close> where \<open>f\<close> may raise: the first exception ends the comprehension.\<close>

fun collect :: "('e + 'a) list \<Rightarrow> 'e + 'a list" where
  "collect [] = Inr []"
| "collect (Inl e # rs) = Inl e"
| "collect (Inr v # rs) = (case collect rs of Inl e \<Rightarrow> Inl e | Inr vs \<Rightarrow> Inr (v # vs))"

text \<open>
  \<^verbatim>\<open>simplify_coordinates(coordinates, factor)\<close> (the spec's \<open>decimate\<close>). A list of numbers is
  a coordinate pair and is returned as it is; a longer list of more than 100 entries is
  thinned and returned without visiting its entries; any other list is rebuilt from the
  decimated entries; a value that is not a list is returned as it is.
\<close>

fun simplify_coordinates :: "real \<Rightarrow> pyval \<Rightarrow> pyexn + pyval" where
  "simplify_coordinates factor (PList cs) =
     (if list_all is_number cs then Inr (PList cs)
      else if length cs > 100 then
        (case stride factor of
           Inl e \<Rightarrow> Inl e
         | Inr step \<Rightarrow>
             if length cs > 2 then Inr (PList (thin step cs))
             else map_sum id PList (collect (map (simplify_coordinates factor) cs)))
      else map_sum id PList (collect (map (simplify_coordinates factor) cs)))"
| "simplify_coordinates factor v = Inr v"

text \<open>
  A coordinate pair is a list of numbers; a ring is a list of coordinate pairs. A nested
  array is \<open>compact\<close> when no array in it other than a coordinate pair has more than 100
  entries.
\<close>

fun is_point :: "pyval \<Rightarrow> bool" where
  "is_point (PList xs) = list_all is_number xs"
| "is_point v = False"

fun compact :: "pyval \<Rightarrow> bool" where
  "compact (PList cs) = (list_all is_number cs \<or> (length cs \<le> 100 \<and> list_all compact cs))"
| "compact v = True"

section \<open>Batch writer\<close>

definition BATCH_SIZE :: nat where
  "BATCH_SIZE = 25"

definition MAX_RETRIES :: int where
  "MAX_RETRIES = 10"

text \<open>
  One call of \<^verbatim>\<open>batch_write_item\<close> either answers with the list of unprocessed items
  (empty when everything was written) or raises. The store is an oracle: given the number
  of calls already made for the group and the items submitted, it gives the reply.
\<close>

datatype 'i reply = Unprocessed "'i list" | Raised

type_synonym 'i store = "nat \<Rightarrow> 'i list \<Rightarrow> 'i reply"

text \<open>
  The \<^verbatim>\<open>while\<close> loop of \<^verbatim>\<open>process_batch\<close>. Every call of the store that does not end the
  loop increments \<^verbatim>\<open>retries\<close>, so \<^verbatim>\<open>retries\<close> is also the number of calls made so far. The
  result is the returned boolean and the number of calls made; the sleeps are not modelled.
\<close>

function process_batch_loop :: "'i store \<Rightarrow> int \<Rightarrow> nat \<Rightarrow> 'i list \<Rightarrow> bool \<times> nat" where
  "process_batch_loop st max_retries retries items_to_process =
     (if items_to_process \<noteq> [] \<and> int retries < max_retries then
        (case st retries items_to_process of
           Unprocessed unprocessed \<Rightarrow>
             if unprocessed \<noteq> [] then process_batch_loop st max_retries (Suc retries) unprocessed
             else (True, Suc retries)
         | Raised \<Rightarrow> process_batch_loop st max_retries (Suc retries) items_to_process)
      else (items_to_process = [], retries))"
  by pat_completeness auto
termination
  by (relation "measure (\<lambda>(st, max_retries, retries, items). nat (max_retries - int retries))") auto

definition process_batch :: "'i store \<Rightarrow> int \<Rightarrow> 'i list \<Rightarrow> bool \<times> nat" where
  "process_batch st max_retries batch = process_batch_loop st max_retries 0 batch"

text \<open>\<^verbatim>\<open>[batch_items[i:i+BATCH_SIZE] for i in range(0, len(batch_items), BATCH_SIZE)]\<close>\<close>

function batches_of :: "'i list \<Rightarrow> 'i list list" where
  "batches_of batch_items =
     (if batch_items = [] then []
      else take BATCH_SIZE batch_items # batches_of (drop BATCH_SIZE batch_items))"
  by pat_completeness auto
termination
  by (relation "measure length") (auto simp: BATCH_SIZE_def)

text \<open>
  The outcome of every group, in group order: group \<open>g\<close> is written against its own
  oracle \<open>st g\<close>. The worker pool is not modelled.
\<close>

definition group_results :: "(nat \<Rightarrow> 'i store) \<Rightarrow> int \<Rightarrow> 'i list \<Rightarrow> (bool \<times> nat) list" where
  "group_results st max_retries batch_items =
     map (\<lambda>(g, batch). process_batch (st g) max_retries batch)
       (enumerate 0 (batches_of batch_items))"

text \<open>
  \<^verbatim>\<open>write_batch_to_dynamo\<close> (the spec's \<open>writeAll\<close>). With no group the executor is created
  with \<^verbatim>\<open>max_workers=0\<close>, which raises \<^verbatim>\<open>ValueError\<close>.
\<close>

definition write_batch_to_dynamo :: "(nat \<Rightarrow> 'i store) \<Rightarrow> int \<Rightarrow> 'i list \<Rightarrow> pyexn + bool" where
  "write_batch_to_dynamo st max_retries batch_items =
     (if batches_of batch_items = [] then Inl ValueError
      else Inr (list_all fst (group_results st max_retries batch_items)))"



section \<open>Hierarchical sort key\<close>

text \<open>Truth value of a Python object, as \<^verbatim>\<open>or\<close> tests it.\<close>

fun truthy :: "pyval \<Rightarrow> bool" where
  "truthy PNone = False"
| "truthy (PBool b) = b"
| "truthy (PInt i) = (i \<noteq> 0)"
| "truthy (PNum r) = (r \<noteq> 0)"
| "truthy (PStr s) = (s \<noteq> [])"
| "truthy (PList xs) = (xs \<noteq> [])"
| "truthy (PDict kvs) = (kvs \<noteq> [])"

definition py_or :: "pyval \<Rightarrow> pyval \<Rightarrow> pyval" where
  "py_or a b = (if truthy a then a else b)"

text \<open>The characters below code point 256 that \<^verbatim>\<open>str.strip()\<close> removes.\<close>

definition is_space :: "char \<Rightarrow> bool" where
  "is_space c = ((of_char c :: nat) \<in> {9, 10, 11, 12, 13, 28, 29, 30, 31, 32, 133, 160})"

definition strip :: "string \<Rightarrow> string" where
  "strip s = rev (dropWhile is_space (rev (dropWhile is_space s)))"

text \<open>\<^verbatim>\<open>v.strip()\<close>: only a string has the method.\<close>

fun call_strip :: "pyval \<Rightarrow> pyexn + string" where
  "call_strip (PStr s) = Inr (strip s)"
| "call_strip v = Inl AttributeError"

definition format_hierarchical_key :: "pyval \<Rightarrow> pyval \<Rightarrow> pyexn + string" where
  "format_hierarchical_key mokupuni moku =
     (case call_strip (py_or mokupuni (PStr ''Unknown'')) of
        Inl e \<Rightarrow> Inl e
      | Inr mokupuni' \<Rightarrow>
          (case call_strip (py_or moku (PStr ''Unknown'')) of
             Inl e \<Rightarrow> Inl e
           | Inr moku' \<Rightarrow> Inr (''MOKUPUNI#'' @ mokupuni' @ ''#MOKU#'' @ moku')))"

text \<open>\<^verbatim>\<open>d.get(key, default)\<close>\<close>

definition dict_get :: "(string \<times> pyval) list \<Rightarrow> string \<Rightarrow> pyval \<Rightarrow> pyval" where
  "dict_get d k dflt = (case map_of d k of None \<Rightarrow> dflt | Some v \<Rightarrow> v)"

text \<open>The sort key of a feature with properties \<open>props\<close>, as \<^verbatim>\<open>process_geojson\<close> computes it.\<close>

definition hierarchy_sk :: "(string \<times> pyval) list \<Rightarrow> pyexn + string" where
  "hierarchy_sk props =
     format_hierarchical_key (dict_get props ''mokupuni'' (PStr ''Unknown''))
       (dict_get props ''moku'' (PStr ''Unknown''))"

section \<open>Display priority\<close>

text \<open>
  \<^verbatim>\<open>float(v)\<close>, correctly rounded. Reading a string is the library's work and is a
  parameter: \<open>parse s\<close> is the number (or infinity, or NaN) that the text \<open>s\<close> denotes, or
  \<open>None\<close> when \<^verbatim>\<open>float(s)\<close> raises \<^verbatim>\<open>ValueError\<close>. An integer too large for a double raises
  \<^verbatim>\<open>OverflowError\<close>; a decimal or a text too large becomes an infinity.
\<close>

fun py_float :: "(string \<Rightarrow> pyfloat option) \<Rightarrow> pyval \<Rightarrow> pyexn + pyfloat" where
  "py_float parse PNone = Inl TypeError"
| "py_float parse (PBool b) = Inr (Finite (if b then 1 else 0))"
| "py_float parse (PInt i) =
     (case to_double (real_of_int i) of
        Finite r \<Rightarrow> Inr (Finite r)
      | other \<Rightarrow> Inl OverflowError)"
| "py_float parse (PNum r) = Inr (to_double r)"
| "py_float parse (PStr s) =
     (case parse s of
        None \<Rightarrow> Inl ValueError
      | Some (Finite v) \<Rightarrow> Inr (to_double v)
      | Some other \<Rightarrow> Inr other)"
| "py_float parse (PList xs) = Inl TypeError"
| "py_float parse (PDict kvs) = Inl TypeError"

text \<open>\<^verbatim>\<open>x / 10000\<close> on floats, correctly rounded.\<close>

fun fdiv10000 :: "pyfloat \<Rightarrow> pyfloat" where
  "fdiv10000 (Finite x) = to_double (x / 10000)"
| "fdiv10000 f = f"

text \<open>\<^verbatim>\<open>int(x)\<close> on a float.\<close>

fun int_of_float :: "pyfloat \<Rightarrow> pyexn + int" where
  "int_of_float (Finite x) = Inr (py_int x)"
| "int_of_float NaN = Inl ValueError"
| "int_of_float f = Inl OverflowError"

text \<open>\<^verbatim>\<open>properties.get('gisacres', properties.get('st_areashape', 0))\<close>\<close>

definition area_of :: "(string \<times> pyval) list \<Rightarrow> pyval" where
  "area_of props = dict_get props ''gisacres'' (dict_get props ''st_areashape'' (PInt 0))"

text \<open>The body of the \<^verbatim>\<open>try\<close>: \<^verbatim>\<open>min(10, max(1, int(float(area) / 10000)))\<close>.\<close>

definition area_priority :: "(string \<Rightarrow> pyfloat option) \<Rightarrow> pyval \<Rightarrow> pyexn + int" where
  "area_priority parse area =
     (case py_float parse area of
        Inl e \<Rightarrow> Inl e
      | Inr area_value \<Rightarrow>
          (case int_of_float (fdiv10000 area_value) of
             Inl e \<Rightarrow> Inl e
           | Inr n \<Rightarrow> Inr (min 10 (max 1 n))))"

text \<open>
  The \<^verbatim>\<open>try\<close> with its handler for \<^verbatim>\<open>ValueError\<close> and \<^verbatim>\<open>TypeError\<close>; any other exception
  leaves the block.
\<close>

definition display_priority :: "(string \<Rightarrow> pyfloat option) \<Rightarrow> (string \<times> pyval) list \<Rightarrow> pyexn + int" where
  "display_priority parse props =
     (case area_priority parse (area_of props) of
        Inl ValueError \<Rightarrow> Inr 5
      | Inl TypeError \<Rightarrow> Inr 5
      | Inl e \<Rightarrow> Inl e
      | Inr priority \<Rightarrow> Inr priority)"


section \<open>Record builder\<close>

text \<open>Decimal digits of an integer, as \<^verbatim>\<open>str\<close> and an f-string print it.\<close>

definition digit_char :: "nat \<Rightarrow> char" where
  "digit_char d = ''0123456789'' ! d"

function show_nat :: "nat \<Rightarrow> string" where
  "show_nat n = (if n < 10 then [digit_char n] else show_nat (n div 10) @ [digit_char (n mod 10)])"
  by pat_completeness auto
termination
  by (relation "measure id") auto

definition show_int :: "int \<Rightarrow> string" where
  "show_int i = (if i < 0 then CHR ''-'' # show_nat (nat (- i)) else show_nat (nat i))"

text \<open>
  \<^verbatim>\<open>str(v)\<close>, which is also how an f-string prints \<open>v\<close>. The text of a non-integer number, a
  list or a dictionary is the library's and is the parameter \<open>other\<close>.
\<close>

fun py_str :: "(pyval \<Rightarrow> string) \<Rightarrow> pyval \<Rightarrow> string" where
  "py_str other (PStr s) = s"
| "py_str other PNone = ''None''"
| "py_str other (PBool b) = (if b then ''True'' else ''False'')"
| "py_str other (PInt i) = show_int i"
| "py_str other v = other v"

text \<open>A DynamoDB attribute value: \<^verbatim>\<open>{'S': v}\<close>, \<^verbatim>\<open>{'N': text}\<close>, \<^verbatim>\<open>{'NULL': b}\<close>, \<^verbatim>\<open>{'M': map}\<close>.\<close>

datatype attr =
    S pyval
  | N string
  | NULL bool
  | M "(string \<times> attr) list"

type_synonym item = "(string \<times> attr) list"

text \<open>\<^verbatim>\<open>item[key] = value\<close>\<close>

definition put :: "string \<Rightarrow> attr \<Rightarrow> item \<Rightarrow> item" where
  "put k v it = AList.update k v it"

text \<open>
  What the loop body derives from a feature's geometry (lines 581 to 627 and the encoded
  geometries of lines 648, 747 and 773 to 795): bounds, centroid, geohash, geohash prefix
  and the JSON texts. They are computed by \<^verbatim>\<open>replace_floats\<close>,
  \<^verbatim>\<open>extract_bounds_from_geometry\<close>, \<^verbatim>\<open>guess_centroid_from_geometry\<close>, \<^verbatim>\<open>geohash2.encode\<close>, the
  decimation and \<^verbatim>\<open>json.dumps\<close>. That computation is not unfolded here: its result, or the
  exception it raises, is what the parameter \<open>derive\<close> gives for the feature, and no
  property below depends on it.
\<close>

record centroid_info =
  lat_text :: string
  lng_text :: string
  coordinate :: pyval

record bounds_info =
  ne_lat :: string
  ne_lng :: string
  sw_lat :: string
  sw_lng :: string
  mbr_json :: string
  size_deg :: real

record geo =
  geohash :: pyval
  geohash_prefix :: pyval
  simplified_json :: string
  centroid :: "centroid_info option"
  bounds :: "bounds_info option"
  geometry_type :: "pyval option"
  full_json :: string
  detail_json :: "(string \<times> string) option"

text \<open>
  The library functions the record builder calls: \<open>repr\<close> prints a number, list or
  dictionary; \<open>dumps\<close> is \<^verbatim>\<open>json.dumps\<close> with the custom encoder and \<open>dumps_sorted\<close> the same
  with \<^verbatim>\<open>sort_keys=True\<close>; \<open>dumps_plain\<close> is \<^verbatim>\<open>json.dumps\<close> without an encoder, which raises on
  a decimal; \<open>md5_hex\<close> is the hexadecimal MD5 digest of the encoded text.
\<close>

record lib =
  repr :: "pyval \<Rightarrow> string"
  dumps :: "pyval \<Rightarrow> string"
  dumps_sorted :: "pyval \<Rightarrow> string"
  dumps_plain :: "pyval \<Rightarrow> pyexn + string"
  md5_hex :: "string \<Rightarrow> string"
  parse_float :: "string \<Rightarrow> pyfloat option"
  derive :: "pyval \<Rightarrow> pyexn + geo"

text \<open>The item literal of lines 629 to 652.\<close>

definition base_item :: "string \<Rightarrow> string \<Rightarrow> pyval \<Rightarrow> pyval \<Rightarrow> pyval \<Rightarrow> geo \<Rightarrow> item" where
  "base_item ahupuaa_pk hierarchy_key ahupuaa_name mokupuni_name moku_name g =
     [(''AhupuaaPK'', S (PStr ahupuaa_pk)),
      (''HierarchySK'', S (PStr hierarchy_key)),
      (''AhupuaaName'', S ahupuaa_name),
      (''MokupuniName'', S mokupuni_name),
      (''MokuName'', S moku_name),
      (''Geohash'', S (geohash g)),
      (''GeohashPrefix'', S (geohash_prefix g)),
      (''ZoomLevel'', N (show_int 10)),
      (''SimplifiedBoundaries'', S (PStr (simplified_json g)))]"

text \<open>\<^verbatim>\<open>Centroid\<close> and \<^verbatim>\<open>AnnotationPoint\<close>, when there is a centroid.\<close>

definition add_centroid :: "lib \<Rightarrow> geo \<Rightarrow> pyval \<Rightarrow> pyval \<Rightarrow> pyval \<Rightarrow> item \<Rightarrow> pyexn + item" where
  "add_centroid l g ahupuaa_name mokupuni_name moku_name it =
     (case centroid g of
        None \<Rightarrow> Inr it
      | Some c \<Rightarrow>
          (case dumps_plain l (PDict
                  [(''coordinate'', coordinate c),
                   (''title'', ahupuaa_name),
                   (''subtitle'', PStr (py_str (repr l) moku_name @ '', '' @ py_str (repr l) mokupuni_name))]) of
             Inl e \<Rightarrow> Inl e
           | Inr annotation \<Rightarrow>
               Inr (put ''AnnotationPoint'' (S (PStr annotation))
                     (put ''Centroid'' (M [(''Lat'', N (lat_text c)), (''Lng'', N (lng_text c))]) it))))"

text \<open>The zoom range of lines 717 to 740.\<close>

definition min_zoom_of :: "real \<Rightarrow> int" where
  "min_zoom_of sz = (if sz < 0.01 then 12 else if sz < 0.05 then 10 else if sz < 0.2 then 8 else 5)"

text \<open>\<^verbatim>\<open>Bounds\<close>, \<^verbatim>\<open>MBR\<close>, \<^verbatim>\<open>MinZoom\<close> and \<^verbatim>\<open>MaxZoom\<close>, when there are bounds.\<close>

definition add_bounds :: "geo \<Rightarrow> item \<Rightarrow> item" where
  "add_bounds g it =
     (case bounds g of
        None \<Rightarrow> it
      | Some b \<Rightarrow>
          put ''MaxZoom'' (N (show_int 16))
            (put ''MinZoom'' (N (show_int (min_zoom_of (size_deg b))))
              (put ''MBR'' (S (PStr (mbr_json b)))
                (put ''Bounds''
                  (M [(''Northeast'', M [(''Lat'', N (ne_lat b)), (''Lng'', N (ne_lng b))]),
                      (''Southwest'', M [(''Lat'', N (sw_lat b)), (''Lng'', N (sw_lng b))])])
                  it))))"

text \<open>\<^verbatim>\<open>GeometryType\<close>, \<^verbatim>\<open>FullGeometry\<close>, \<^verbatim>\<open>StyleProperties\<close> and the two detail variants.\<close>

definition add_geometry :: "geo \<Rightarrow> item \<Rightarrow> item" where
  "add_geometry g it =
     (let it1 = (case geometry_type g of None \<Rightarrow> it | Some t \<Rightarrow> put ''GeometryType'' (S t) it);
          it2 = put ''FullGeometry'' (S (PStr (full_json g))) it1;
          it3 = put ''StyleProperties''
                  (M [(''FillColor'', S (PStr ''#A3C1AD'')),
                      (''BorderColor'', S (PStr ''#2A6041'')),
                      (''BorderWidth'', N ''2'')]) it2
      in case detail_json g of
           None \<Rightarrow> it3
         | Some (low, high) \<Rightarrow>
             put ''HighDetailBoundaries'' (S (PStr high))
               (put ''LowDetailBoundaries'' (S (PStr low)) it3))"

definition add_hints :: "int \<Rightarrow> item \<Rightarrow> item" where
  "add_hints priority it =
     put ''iOSRenderingHints''
       (M [(''StrokeWidth'', N ''2''),
           (''FillOpacity'', N ''0.5''),
           (''StrokeOpacity'', N ''0.8''),
           (''ZIndex'', N (show_int priority)),
           (''LineDashPattern'', S (PStr ''[0]'')),
           (''SelectedFillColor'', S (PStr ''#C1E1AD'')),
           (''SelectedStrokeColor'', S (PStr ''#205841''))]) it"

text \<open>
  The tagged value of one property. The test for \<^verbatim>\<open>int\<close> comes before the test for
  \<^verbatim>\<open>bool\<close>, so a boolean is written as a number.
\<close>

fun tagged :: "lib \<Rightarrow> pyval \<Rightarrow> attr" where
  "tagged l (PStr s) = S (PStr s)"
| "tagged l (PInt i) = N (show_int i)"
| "tagged l (PBool b) = N (py_str (repr l) (PBool b))"
| "tagged l (PNum r) = N (repr l (PNum r))"
| "tagged l PNone = NULL True"
| "tagged l v = S (PStr (dumps l v))"

definition add_properties :: "lib \<Rightarrow> (string \<times> pyval) list \<Rightarrow> item \<Rightarrow> item" where
  "add_properties l props it =
     (if props \<noteq> [] then put ''Properties'' (M (map (\<lambda>(k, v). (k, tagged l v)) props)) it
      else it)"

text \<open>The digest of lines 826 to 830.\<close>

definition feature_hash :: "lib \<Rightarrow> pyval \<Rightarrow> string" where
  "feature_hash l feature = md5_hex l (dumps_sorted l feature)"

definition add_metadata :: "lib \<Rightarrow> int \<Rightarrow> string \<Rightarrow> pyval \<Rightarrow> item \<Rightarrow> item" where
  "add_metadata l data_version now feature it =
     put ''Metadata''
       (M [(''DataVersion'', N (show_int data_version)),
           (''FeatureHash'', S (PStr (feature_hash l feature))),
           (''LastUpdated'', S (PStr now))]) it"

text \<open>\<^verbatim>\<open>feature.get('id', str(properties.get('objectid', f"{feature_index}")))\<close>\<close>

definition feature_id :: "lib \<Rightarrow> nat \<Rightarrow> (string \<times> pyval) list \<Rightarrow> (string \<times> pyval) list \<Rightarrow> pyval" where
  "feature_id l feature_index fd props =
     dict_get fd ''id''
       (PStr (py_str (repr l) (dict_get props ''objectid'' (PStr (show_nat feature_index)))))"

text \<open>
  The body of the loop of \<^verbatim>\<open>process_geojson\<close> for the feature at position
  \<open>feature_index\<close>: the item appended to the batch, or the exception that ends the run.
  \<open>data_version\<close> is the run's \<^verbatim>\<open>DATA_VERSION\<close> and \<open>now\<close> the timestamp text of the moment.
\<close>

definition build_item :: "lib \<Rightarrow> int \<Rightarrow> string \<Rightarrow> nat \<Rightarrow> pyval \<Rightarrow> pyexn + item" where
  "build_item l data_version now feature_index feature =
     (case feature of
        PDict fd \<Rightarrow>
          (case dict_get fd ''properties'' (PDict []) of
             PDict props \<Rightarrow>
               (let ahupuaa_name = dict_get props ''ahupuaa''
                      (dict_get props ''name'' (PStr (''Ahupuaa_'' @ show_nat feature_index)));
                    moku_name = dict_get props ''moku'' (PStr ''Unknown'');
                    mokupuni_name = dict_get props ''mokupuni'' (PStr ''Unknown'');
                    ahupuaa_pk = ''AHUPUAA#'' @ py_str (repr l) (feature_id l feature_index fd props)
                in case format_hierarchical_key mokupuni_name moku_name of
                     Inl e \<Rightarrow> Inl e
                   | Inr hierarchy_key \<Rightarrow>
                       (case derive l feature of
                          Inl e \<Rightarrow> Inl e
                        | Inr g \<Rightarrow>
                            (case add_centroid l g ahupuaa_name mokupuni_name moku_name
                                    (base_item ahupuaa_pk hierarchy_key ahupuaa_name mokupuni_name moku_name g) of
                               Inl e \<Rightarrow> Inl e
                             | Inr it \<Rightarrow>
                                 (case display_priority (parse_float l) props of
                                    Inl e \<Rightarrow> Inl e
                                  | Inr priority \<Rightarrow>
                                      Inr (add_metadata l data_version now feature
                                            (add_properties l props
                                              (add_hints priority
                                                (add_geometry g
                                                  (add_bounds g
                                                    (put ''DisplayPriority'' (N (show_int priority)) it))))))))))
           | v \<Rightarrow> Inl AttributeError)
      | v \<Rightarrow> Inl AttributeError)"

text \<open>The digest stored in an item's \<^verbatim>\<open>Metadata\<close> map.\<close>

definition hash_of :: "item \<Rightarrow> attr option" where
  "hash_of it = (case map_of it ''Metadata'' of Some (M m) \<Rightarrow> map_of m ''FeatureHash'' | other \<Rightarrow> None)"

text \<open>
  The key and name attributes of the item literal, together with the names the
  specification uses for them.
\<close>

definition key_names :: "string set" where
  "key_names = {''AhupuaaPK'', ''HierarchySK'', ''AhupuaaName'', ''MokupuniName'', ''MokuName'',
                ''PrimaryKey'', ''SortKey'', ''Name'', ''IslandName'', ''DistrictName''}"

text \<open>
  What lines 581 to 627 give for a feature without a \<^verbatim>\<open>geometry\<close>, \<^verbatim>\<open>bounds\<close>,
  \<^verbatim>\<open>centroid_geopoint\<close> or \<^verbatim>\<open>geohash\<close> entry: the placeholder geohash and the encoding of the
  empty geometry.
\<close>

definition no_geometry :: geo where
  "no_geometry =
     \<lparr>geohash = PStr ''0000000'', geohash_prefix = PStr ''000'', simplified_json = ''{}'',
      centroid = None, bounds = None, geometry_type = None, full_json = ''{}'',
      detail_json = None\<rparr>"

text \<open>
  A stand-in for the libraries, for features without geometry: every printed or encoded
  text is \<open>text\<close> and the digest of every text is \<open>digest\<close>.
\<close>

definition stand_in :: "string \<Rightarrow> string \<Rightarrow> lib" where
  "stand_in text digest =
     \<lparr>repr = (\<lambda>v. text), dumps = (\<lambda>v. text), dumps_sorted = (\<lambda>v. text),
      dumps_plain = (\<lambda>v. Inr text), md5_hex = (\<lambda>s. digest), parse_float = Map.empty,
      derive = (\<lambda>feature. Inr no_geometry)\<rparr>"

section \<open>Streaming importer\<close>

record 'i run =
  batch :: "'i list"
  total_processed :: nat
  written :: "'i list list"

text \<open>
  The second pass of \<^verbatim>\<open>process_geojson\<close> over the features of an existing file. The list
  holds, for each feature in stream order, what building its item yields. \<open>written\<close> logs the
  batches handed to the writer with success, and the store's oracle may depend on how many
  there were. The boolean is \<open>False\<close> when the function returns \<^verbatim>\<open>False\<close> from inside the
  loop (a failed write or an exception).
\<close>

fun import_loop :: "(nat \<Rightarrow> nat \<Rightarrow> 'i store) \<Rightarrow> bool \<Rightarrow> int \<Rightarrow> (pyexn + 'i) list \<Rightarrow> 'i run \<Rightarrow> bool \<times> 'i run" where
  "import_loop st test_mode test_limit [] r = (True, r)"
| "import_loop st test_mode test_limit (f # fs) r =
     (if test_mode \<and> test_limit \<le> int (total_processed r) then (True, r)
      else case f of
        Inl e \<Rightarrow> (False, r)
      | Inr it \<Rightarrow>
          (let b = batch r @ [it] in
           if BATCH_SIZE \<le> length b then
             (case write_batch_to_dynamo (st (length (written r))) MAX_RETRIES b of
                Inr True \<Rightarrow>
                  import_loop st test_mode test_limit fs
                    (r\<lparr>batch := [], total_processed := total_processed r + length b,
                       written := written r @ [b]\<rparr>)
              | res \<Rightarrow> (False, r\<lparr>batch := b\<rparr>))
           else import_loop st test_mode test_limit fs (r\<lparr>batch := b\<rparr>)))"

text \<open>
  \<^verbatim>\<open>process_geojson\<close>: the loop, then the write of the remaining items. The result is the
  returned boolean and the final state; \<open>total_processed\<close> is the number of features the run
  reports as imported.
\<close>

definition process_geojson :: "(nat \<Rightarrow> nat \<Rightarrow> 'i store) \<Rightarrow> bool \<Rightarrow> int \<Rightarrow> (pyexn + 'i) list \<Rightarrow> bool \<times> 'i run" where
  "process_geojson st test_mode test_limit features =
     (case import_loop st test_mode test_limit features
             \<lparr>batch = [], total_processed = 0, written = []\<rparr> of
        (False, r) \<Rightarrow> (False, r)
      | (True, r) \<Rightarrow>
          if batch r \<noteq> [] then
            (case write_batch_to_dynamo (st (length (written r))) MAX_RETRIES (batch r) of
               Inr True \<Rightarrow>
                 (True, r\<lparr>total_processed := total_processed r + length (batch r),
                           written := written r @ [batch r]\<rparr>)
             | res \<Rightarrow> (False, r))
          else (True, r))"

text \<open>A store that writes every item at the first call.\<close>

definition accepting :: "nat \<Rightarrow> nat \<Rightarrow> 'i store" where
  "accepting call g k its = Unprocessed []"

section \<open>Properties of the float model\<close>

declare process_batch_loop.simps [simp del]
declare batches_of.simps [simp del]
declare show_nat.simps [simp del]

lemma rhe_cases:
  "round_half_even y = \<lfloor>y\<rfloor> \<and> y - of_int \<lfloor>y\<rfloor> \<le> 1 / 2
   \<or> round_half_even y = \<lfloor>y\<rfloor> + 1 \<and> 1 / 2 \<le> y - of_int \<lfloor>y\<rfloor>"
  unfolding round_half_even_def Let_def by auto

lemma rhe_le: "y \<le> of_int m \<Longrightarrow> round_half_even y \<le> m"
proof -
  assume a: "y \<le> of_int m"
  have f: "of_int \<lfloor>y\<rfloor> \<le> y" by simp
  from rhe_cases [of y] show ?thesis
  proof
    assume "round_half_even y = \<lfloor>y\<rfloor> \<and> y - of_int \<lfloor>y\<rfloor> \<le> 1 / 2"
    moreover from a have "\<lfloor>y\<rfloor> \<le> m" by (simp add: floor_le_iff)
    ultimately show ?thesis by simp
  next
    assume c: "round_half_even y = \<lfloor>y\<rfloor> + 1 \<and> 1 / 2 \<le> y - of_int \<lfloor>y\<rfloor>"
    with a have "real_of_int \<lfloor>y\<rfloor> < of_int m" by linarith
    then have "\<lfloor>y\<rfloor> < m" by (simp only: of_int_less_iff)
    with c show ?thesis by simp
  qed
qed

lemma rhe_ge: "of_int m \<le> y \<Longrightarrow> m \<le> round_half_even y"
proof -
  assume a: "of_int m \<le> y"
  then have "m \<le> \<lfloor>y\<rfloor>" by (simp add: le_floor_iff)
  with rhe_cases [of y] show ?thesis by auto
qed

lemma rhe_lt: "y < of_int m + 1 / 2 \<Longrightarrow> round_half_even y \<le> m"
proof -
  assume a: "y < of_int m + 1 / 2"
  have f: "of_int \<lfloor>y\<rfloor> \<le> y" by simp
  from rhe_cases [of y] show ?thesis
  proof
    assume c: "round_half_even y = \<lfloor>y\<rfloor> \<and> y - of_int \<lfloor>y\<rfloor> \<le> 1 / 2"
    from a f have "real_of_int \<lfloor>y\<rfloor> < of_int m + 1" by linarith
    then have "real_of_int \<lfloor>y\<rfloor> < of_int (m + 1)" by simp
    then have "\<lfloor>y\<rfloor> < m + 1" by (simp only: of_int_less_iff)
    with c show ?thesis by simp
  next
    assume c: "round_half_even y = \<lfloor>y\<rfloor> + 1 \<and> 1 / 2 \<le> y - of_int \<lfloor>y\<rfloor>"
    with a have "real_of_int \<lfloor>y\<rfloor> < of_int m" by linarith
    then have "\<lfloor>y\<rfloor> < m" by (simp only: of_int_less_iff)
    with c show ?thesis by simp
  qed
qed

lemma rhe_gt: "of_int m - 1 / 2 < y \<Longrightarrow> m \<le> round_half_even y"
proof -
  assume a: "of_int m - 1 / 2 < y"
  have f: "y < of_int \<lfloor>y\<rfloor> + 1" by linarith
  from rhe_cases [of y] show ?thesis
  proof
    assume c: "round_half_even y = \<lfloor>y\<rfloor> \<and> y - of_int \<lfloor>y\<rfloor> \<le> 1 / 2"
    with a have "real_of_int m < of_int \<lfloor>y\<rfloor> + 1" by linarith
    then have "real_of_int m < of_int (\<lfloor>y\<rfloor> + 1)" by simp
    then have "m < \<lfloor>y\<rfloor> + 1" by (simp only: of_int_less_iff)
    with c show ?thesis by simp
  next
    assume c: "round_half_even y = \<lfloor>y\<rfloor> + 1 \<and> 1 / 2 \<le> y - of_int \<lfloor>y\<rfloor>"
    from a f have "real_of_int m < of_int \<lfloor>y\<rfloor> + 2" by linarith
    then have "real_of_int m < of_int (\<lfloor>y\<rfloor> + 2)" by simp
    then have "m < \<lfloor>y\<rfloor> + 2" by (simp only: of_int_less_iff)
    with c show ?thesis by simp
  qed
qed

lemma rhe_of_int: "round_half_even (of_int m) = m"
  by (simp add: round_half_even_def)

lemma expo_bounds:
  assumes "x \<noteq> 0"
  shows "2 powi expo x \<le> \<bar>x\<bar> \<and> \<bar>x\<bar> < 2 powi (expo x + 1)"
proof (cases "1 \<le> \<bar>x\<bar>")
  case True
  let ?n = "\<lfloor>\<bar>x\<bar>\<rfloor>"
  from True have n: "0 < ?n" by simp
  have e: "expo x = bitlen ?n - 1" using True by (simp add: expo_def)
  from n have b1: "1 \<le> bitlen ?n" by (simp add: bitlen_alt_def)
  from bitlen_bounds [OF n] have lo: "2 ^ nat (bitlen ?n - 1) \<le> ?n" and hi: "?n < 2 ^ nat (bitlen ?n)"
    by simp_all
  from lo have "real_of_int (2 ^ nat (bitlen ?n - 1)) \<le> of_int ?n" by (simp only: of_int_le_iff)
  then have "(2::real) ^ nat (bitlen ?n - 1) \<le> \<bar>x\<bar>" by (simp add: le_floor_iff)
  moreover have "(2::real) powi (bitlen ?n - 1) = 2 ^ nat (bitlen ?n - 1)"
    using b1 by (simp add: power_int_def)
  moreover from hi have "\<bar>x\<bar> < 2 ^ nat (bitlen ?n)"
    by (metis floor_less_iff of_int_numeral of_int_power)
  moreover have "(2::real) powi (bitlen ?n - 1 + 1) = 2 ^ nat (bitlen ?n)"
    using b1 by (simp add: power_int_def)
  ultimately show ?thesis by (simp add: e)
next
  case False
  let ?y = "1 / \<bar>x\<bar>"
  let ?c = "\<lceil>?y\<rceil>"
  let ?k = "bitlen (?c - 1)"
  from False assms have y1: "1 < ?y" by simp
  then have c: "0 < ?c - 1" by linarith
  have e: "expo x = - ?k" using False by (simp add: expo_def)
  from c have k1: "1 \<le> ?k" by (simp add: bitlen_alt_def)
  from bitlen_bounds [OF c] have lo: "2 ^ nat (?k - 1) \<le> ?c - 1" and hi: "?c - 1 < 2 ^ nat ?k"
    by simp_all
  from hi have "?c \<le> 2 ^ nat ?k" by simp
  then have "real_of_int ?c \<le> of_int (2 ^ nat ?k)" by (simp only: of_int_le_iff)
  then have "?y \<le> 2 ^ nat ?k" by (simp add: ceiling_le_iff)
  then have up: "1 / 2 ^ nat ?k \<le> \<bar>x\<bar>" using assms by (simp add: field_simps)
  from lo have "real_of_int (2 ^ nat (?k - 1)) \<le> of_int (?c - 1)" by (simp only: of_int_le_iff)
  moreover have "real_of_int (?c - 1) < ?y" by linarith
  ultimately have "2 ^ nat (?k - 1) < ?y" by simp
  then have dn: "\<bar>x\<bar> < 1 / 2 ^ nat (?k - 1)" using assms by (simp add: field_simps)
  have p1: "(2::real) powi (- ?k) = 1 / 2 ^ nat ?k"
    using k1 by (simp add: power_int_def field_simps)
  have p2: "(2::real) powi (- ?k + 1) = 1 / 2 ^ nat (?k - 1)"
  proof -
    have "- ?k + 1 = - (?k - 1)" by simp
    then have "(2::real) powi (- ?k + 1) = inverse (2 powi (?k - 1))"
      by (simp only: power_int_minus)
    also have "\<dots> = 1 / 2 ^ nat (?k - 1)" using k1 by (simp add: power_int_def field_simps)
    finally show ?thesis .
  qed
  from up dn show ?thesis by (simp only: e p1 p2)
qed

lemma expo_unique:
  assumes "2 powi e \<le> \<bar>x\<bar>" and "\<bar>x\<bar> < 2 powi (e + 1)"
  shows "expo x = e"
proof -
  from assms(1) have "0 < \<bar>x\<bar>" by (rule less_le_trans [rotated]) simp
  then have x: "x \<noteq> 0" by auto
  note b = expo_bounds [OF x]
  have "expo x < e + 1"
  proof (rule ccontr)
    assume "\<not> expo x < e + 1"
    then have "(2::real) powi (e + 1) \<le> 2 powi expo x" by (intro power_int_increasing) auto
    with b assms(2) show False by linarith
  qed
  moreover have "e < expo x + 1"
  proof (rule ccontr)
    assume "\<not> e < expo x + 1"
    then have "(2::real) powi (expo x + 1) \<le> 2 powi e" by (intro power_int_increasing) auto
    with b assms(1) show False by linarith
  qed
  ultimately show ?thesis by simp
qed

lemma rd_le_mult:
  "x \<le> of_int m * 2 powi ulp_exp x \<Longrightarrow> round_double x \<le> of_int m * 2 powi ulp_exp x"
proof -
  assume "x \<le> of_int m * 2 powi ulp_exp x"
  then have "x / 2 powi ulp_exp x \<le> of_int m" by (simp add: field_simps)
  then have "round_half_even (x / 2 powi ulp_exp x) \<le> m" by (rule rhe_le)
  then have "real_of_int (round_half_even (x / 2 powi ulp_exp x)) \<le> of_int m"
    by (simp only: of_int_le_iff)
  then show ?thesis unfolding round_double_def by (intro mult_right_mono) simp_all
qed

lemma rd_ge_mult:
  "of_int m * 2 powi ulp_exp x \<le> x \<Longrightarrow> of_int m * 2 powi ulp_exp x \<le> round_double x"
proof -
  assume "of_int m * 2 powi ulp_exp x \<le> x"
  then have "of_int m \<le> x / 2 powi ulp_exp x" by (simp add: field_simps)
  then have "m \<le> round_half_even (x / 2 powi ulp_exp x)" by (rule rhe_ge)
  then have "real_of_int m \<le> of_int (round_half_even (x / 2 powi ulp_exp x))"
    by (simp only: of_int_le_iff)
  then show ?thesis unfolding round_double_def by (intro mult_right_mono) simp_all
qed

lemma rd_lt_mult:
  "x < (of_int m + 1 / 2) * 2 powi ulp_exp x \<Longrightarrow> round_double x \<le> of_int m * 2 powi ulp_exp x"
proof -
  assume "x < (of_int m + 1 / 2) * 2 powi ulp_exp x"
  then have "x / 2 powi ulp_exp x < of_int m + 1 / 2" by (simp add: field_simps)
  then have "round_half_even (x / 2 powi ulp_exp x) \<le> m" by (rule rhe_lt)
  then have "real_of_int (round_half_even (x / 2 powi ulp_exp x)) \<le> of_int m"
    by (simp only: of_int_le_iff)
  then show ?thesis unfolding round_double_def by (intro mult_right_mono) simp_all
qed

lemma rd_gt_mult:
  "(of_int m - 1 / 2) * 2 powi ulp_exp x < x \<Longrightarrow> of_int m * 2 powi ulp_exp x \<le> round_double x"
proof -
  assume "(of_int m - 1 / 2) * 2 powi ulp_exp x < x"
  then have "of_int m - 1 / 2 < x / 2 powi ulp_exp x" by (simp add: field_simps)
  then have "m \<le> round_half_even (x / 2 powi ulp_exp x)" by (rule rhe_gt)
  then have "real_of_int m \<le> of_int (round_half_even (x / 2 powi ulp_exp x))"
    by (simp only: of_int_le_iff)
  then show ?thesis unfolding round_double_def by (intro mult_right_mono) simp_all
qed

lemma rd_nonpos: "x \<le> 0 \<Longrightarrow> round_double x \<le> 0"
  using rd_le_mult [of x 0] by simp

lemma rd_nonneg: "0 \<le> x \<Longrightarrow> 0 \<le> round_double x"
  using rd_ge_mult [of 0 x] by simp

lemma rd_zero: "round_double 0 = 0"
  by (simp add: round_double_def rhe_of_int [of 0, simplified])

lemma ulp_exp_normal: "- 1022 \<le> expo x \<Longrightarrow> ulp_exp x = expo x - 52"
  by (simp add: ulp_exp_def)

lemma expo_zero: "expo 0 = 0"
  by (simp add: expo_def bitlen_eq_zero_iff)

lemma expo_less: "x \<noteq> 0 \<Longrightarrow> \<bar>x\<bar> < 2 powi e \<Longrightarrow> expo x < e"
proof (rule ccontr)
  assume x: "x \<noteq> 0" and lt: "\<bar>x\<bar> < 2 powi e" and "\<not> expo x < e"
  then have "(2::real) powi e \<le> 2 powi expo x" by (intro power_int_increasing) auto
  with expo_bounds [OF x] lt show False by linarith
qed

lemma expo_ge: "2 powi e \<le> \<bar>x\<bar> \<Longrightarrow> e \<le> expo x"
proof (rule ccontr)
  assume le: "2 powi e \<le> \<bar>x\<bar>" and "\<not> e \<le> expo x"
  then have "(2::real) powi (expo x + 1) \<le> 2 powi e" by (intro power_int_increasing) auto
  moreover from le have "0 < \<bar>x\<bar>" by (rule less_le_trans [rotated]) simp
  then have "x \<noteq> 0" by auto
  ultimately show False using expo_bounds [of x] le by linarith
qed

lemma ulp_exp_small: "\<bar>x\<bar> < 2 ^ 53 \<Longrightarrow> ulp_exp x \<le> 0"
proof (cases "x = 0")
  case True
  then show ?thesis by (simp add: ulp_exp_def expo_zero)
next
  case False
  assume "\<bar>x\<bar> < 2 ^ 53"
  then have "\<bar>x\<bar> < 2 powi 53" by simp
  with False have "expo x < 53" by (rule expo_less)
  then show ?thesis by (simp add: ulp_exp_def)
qed

lemma int_as_multiple: "u \<le> 0 \<Longrightarrow> real_of_int n = of_int (n * 2 ^ nat (- u)) * 2 powi u"
proof -
  assume "u \<le> 0"
  then have "(2::real) powi u = inverse (2 ^ nat (- u))"
    by (simp add: power_int_def power_one_over field_simps)
  then show ?thesis by simp
qed

lemma rd_le_int:
  assumes a: "x \<le> of_int n" and b: "\<bar>x\<bar> < 2 ^ 53"
  shows "round_double x \<le> of_int n"
proof -
  from b have u: "ulp_exp x \<le> 0" by (rule ulp_exp_small)
  have eq: "of_int (n * 2 ^ nat (- ulp_exp x)) * 2 powi ulp_exp x = real_of_int n"
    using int_as_multiple [OF u, of n] by (rule sym)
  from a have "x \<le> of_int (n * 2 ^ nat (- ulp_exp x)) * 2 powi ulp_exp x"
    by (simp only: eq)
  then have "round_double x \<le> of_int (n * 2 ^ nat (- ulp_exp x)) * 2 powi ulp_exp x"
    by (rule rd_le_mult)
  then show ?thesis by (simp only: eq)
qed

lemma rd_ge_int:
  assumes a: "of_int n \<le> x" and b: "\<bar>x\<bar> < 2 ^ 53"
  shows "of_int n \<le> round_double x"
proof -
  from b have u: "ulp_exp x \<le> 0" by (rule ulp_exp_small)
  have eq: "of_int (n * 2 ^ nat (- ulp_exp x)) * 2 powi ulp_exp x = real_of_int n"
    using int_as_multiple [OF u, of n] by (rule sym)
  from a have "of_int (n * 2 ^ nat (- ulp_exp x)) * 2 powi ulp_exp x \<le> x"
    by (simp only: eq)
  then have "of_int (n * 2 ^ nat (- ulp_exp x)) * 2 powi ulp_exp x \<le> round_double x"
    by (rule rd_ge_mult)
  then show ?thesis by (simp only: eq)
qed

lemma rd_of_int: "\<bar>real_of_int n\<bar> < 2 ^ 53 \<Longrightarrow> round_double (of_int n) = of_int n"
  using rd_le_int [of "of_int n" n] rd_ge_int [of n "of_int n"] by simp

lemma pow_expo_as_multiple:
  "- 1022 \<le> expo x \<Longrightarrow> (2::real) powi expo x = of_int (2 ^ 52) * 2 powi ulp_exp x"
proof -
  assume "- 1022 \<le> expo x"
  then have "ulp_exp x = expo x - 52" by (rule ulp_exp_normal)
  moreover have "(2::real) powi (52 + (expo x - 52)) = 2 powi 52 * 2 powi (expo x - 52)"
    by (rule power_int_add) simp
  ultimately show ?thesis by simp
qed

lemma pow_expo1_as_multiple:
  "- 1022 \<le> expo x \<Longrightarrow> (2::real) powi (expo x + 1) = of_int (2 ^ 53) * 2 powi ulp_exp x"
proof -
  assume "- 1022 \<le> expo x"
  then have "ulp_exp x = expo x - 52" by (rule ulp_exp_normal)
  moreover have "(2::real) powi (53 + (expo x - 52)) = 2 powi 53 * 2 powi (expo x - 52)"
    by (rule power_int_add) simp
  moreover have "53 + (expo x - 52) = expo x + 1" by simp
  ultimately show ?thesis by simp
qed

lemma rd_lower: "0 < x \<Longrightarrow> - 1022 \<le> expo x \<Longrightarrow> 2 powi expo x \<le> round_double x"
proof -
  assume x: "0 < x" and n: "- 1022 \<le> expo x"
  from x expo_bounds [of x] have "2 powi expo x \<le> x" by simp
  then have "of_int (2 ^ 52) * 2 powi ulp_exp x \<le> x"
    by (simp only: pow_expo_as_multiple [OF n])
  then have "of_int (2 ^ 52) * 2 powi ulp_exp x \<le> round_double x" by (rule rd_ge_mult)
  then show ?thesis by (simp only: pow_expo_as_multiple [OF n])
qed

lemma rd_upper: "0 < x \<Longrightarrow> - 1022 \<le> expo x \<Longrightarrow> round_double x \<le> 2 powi (expo x + 1)"
proof -
  assume x: "0 < x" and n: "- 1022 \<le> expo x"
  from x expo_bounds [of x] have "x \<le> 2 powi (expo x + 1)" by simp
  then have "x \<le> of_int (2 ^ 53) * 2 powi ulp_exp x"
    by (simp only: pow_expo1_as_multiple [OF n])
  then have "round_double x \<le> of_int (2 ^ 53) * 2 powi ulp_exp x" by (rule rd_le_mult)
  then show ?thesis by (simp only: pow_expo1_as_multiple [OF n])
qed

lemma rd_le_one: "x \<le> 1 \<Longrightarrow> round_double x \<le> 1"
proof (cases "x \<le> 0")
  case True
  then have "round_double x \<le> 0" by (rule rd_nonpos)
  then show ?thesis by simp
next
  case False
  assume "x \<le> 1"
  with False have "\<bar>x\<bar> < 2 ^ 53" by simp
  with \<open>x \<le> 1\<close> rd_le_int [of x 1] show ?thesis by simp
qed

lemma pow2_split: "(2::real) powi e = of_int (2 ^ 52) * 2 powi (e - 52)"
proof -
  have "(2::real) powi (52 + (e - 52)) = 2 powi 52 * 2 powi (e - 52)"
    by (rule power_int_add) simp
  then show ?thesis by simp
qed

text \<open>A rounded value of at least 1 lies on the grid of its own binade.\<close>

lemma rd_on_grid:
  assumes "1 \<le> round_double r"
  shows "\<exists>j. round_double r = of_int j * 2 powi (expo (round_double r) - 52)"
proof (cases "r \<le> 1")
  case True
  then have "round_double r \<le> 1" by (rule rd_le_one)
  with assms have a: "round_double r = 1" by simp
  have "expo (1::real) = 0" by (rule expo_unique) simp_all
  then have "round_double r = of_int (2 ^ 52) * 2 powi (expo (round_double r) - 52)"
    using pow2_split [of 0] by (simp add: a)
  then show ?thesis ..
next
  case False
  let ?a = "round_double r"
  let ?e = "expo r"
  from False have r: "0 < r" by simp
  from False have "2 powi 0 \<le> \<bar>r\<bar>" by simp
  then have e0: "0 \<le> ?e" by (rule expo_ge)
  then have n: "- 1022 \<le> ?e" by simp
  have lo: "2 powi ?e \<le> ?a" using r n by (rule rd_lower)
  have hi: "?a \<le> 2 powi (?e + 1)" using r n by (rule rd_upper)
  have pos: "0 < ?a" using lo by (rule less_le_trans [rotated]) simp
  show ?thesis
  proof (cases "?a < 2 powi (?e + 1)")
    case True
    with lo pos have "expo ?a = ?e" by (intro expo_unique) simp_all
    moreover have "?a = of_int (round_half_even (r / 2 powi ulp_exp r)) * 2 powi (?e - 52)"
      using ulp_exp_normal [OF n] by (simp add: round_double_def)
    ultimately have "?a = of_int (round_half_even (r / 2 powi ulp_exp r)) * 2 powi (expo ?a - 52)"
      by simp
    then show ?thesis ..
  next
    case False
    with hi have a: "?a = 2 powi (?e + 1)" by simp
    have "(2::real) powi (?e + 1) < 2 powi (?e + 1 + 1)"
      by (intro power_int_strict_increasing) auto
    then have "expo ?a = ?e + 1" using pos by (intro expo_unique) (simp_all add: a)
    then have "?a = of_int (2 ^ 52) * 2 powi (expo ?a - 52)"
      using pow2_split [of "?e + 1"] a by simp
    then show ?thesis ..
  qed
qed

text \<open>
  Dividing a double between 10000 and 100000 by 10000 and rounding the quotient gives a
  number with the same integer part as the exact quotient.
\<close>

lemma quotient_floor:
  assumes lo: "10000 \<le> round_double r" and hi: "round_double r < 100000"
  shows "\<lfloor>round_double (round_double r / 10000)\<rfloor> = \<lfloor>round_double r / 10000\<rfloor>"
proof -
  define a where "a = round_double r"
  define q where "q = a / 10000"
  define n where "n = \<lfloor>q\<rfloor>"
  define ea where "ea = expo a"
  define eq where "eq = expo q"
  define p :: real where "p = 2 powi (ea - 52)"
  define pq :: real where "pq = 2 powi (eq - 52)"
  have lo': "10000 \<le> a" and hi': "a < 100000" using lo hi by (simp_all add: a_def)
  have p0: "0 < p" and pq0: "0 < pq" by (simp_all add: p_def pq_def)
  from lo' have q1: "1 \<le> q" by (simp add: q_def)
  from hi' have q10: "q < 10" by (simp add: q_def)
  from lo' have a0: "0 < a" by simp
  have aq: "a = q * 10000" by (simp add: q_def)
  have nq: "of_int n \<le> q" unfolding n_def by (rule of_int_floor_le)
  have qn: "q < of_int n + 1" unfolding n_def by linarith
  \<comment> \<open>the binades of the double and of the quotient\<close>
  have ea_hi: "ea < 17" unfolding ea_def
  proof (rule expo_less)
    show "a \<noteq> 0" using a0 by simp
    show "\<bar>a\<bar> < 2 powi 17" using hi' a0 by simp
  qed
  have eq_lo: "0 \<le> eq" unfolding eq_def using q1 by (intro expo_ge) simp
  have eq_hi: "eq < 4" unfolding eq_def
  proof (rule expo_less)
    show "q \<noteq> 0" using q1 by simp
    show "\<bar>q\<bar> < 2 powi 4" using q10 q1 by simp
  qed
  have uq: "ulp_exp q = eq - 52" unfolding eq_def using eq_lo
    by (intro ulp_exp_normal) (simp add: eq_def)
  \<comment> \<open>the double lies one grid step below the next multiple of 10000\<close>
  from lo have "1 \<le> round_double r" by simp
  then obtain j where "round_double r = of_int j * 2 powi (expo (round_double r) - 52)"
    using rd_on_grid by blast
  then have j: "a = of_int j * p" by (simp add: a_def p_def ea_def)
  have u_neg: "ea - 52 \<le> 0" using ea_hi by simp
  define K where "K = (10000 * (n + 1)) * 2 ^ nat (- (ea - 52))"
  have K: "real_of_int (10000 * (n + 1)) = of_int K * p"
    unfolding K_def p_def using u_neg by (rule int_as_multiple)
  have N: "a < real_of_int (10000 * (n + 1))" using qn by (simp add: aq)
  then have "of_int j * p < of_int K * p" by (simp only: j K)
  then have "real_of_int j < of_int K" using p0 by simp
  then have "j < K" by (simp only: of_int_less_iff)
  then have "j + 1 \<le> K" by simp
  then have "real_of_int (j + 1) \<le> of_int K" by (simp only: of_int_le_iff)
  then have "of_int (j + 1) * p \<le> of_int K * p" using p0 by (intro mult_right_mono) simp_all
  then have "of_int j * p + p \<le> of_int K * p" by (simp add: algebra_simps)
  then have step: "a + p \<le> 10000 * (of_int n + 1)" using K by (simp add: j)
  \<comment> \<open>the grid step is more than a 2^53th of the double\<close>
  have "(2::real) powi (53 + (ea - 52)) = 2 powi 53 * 2 powi (ea - 52)"
    by (rule power_int_add) simp
  moreover have "53 + (ea - 52) = ea + 1" by simp
  ultimately have "(2::real) powi (ea + 1) = 2 ^ 53 * p" by (simp add: p_def)
  moreover from a0 expo_bounds [of a] have "a < 2 powi (ea + 1)" by (simp add: ea_def)
  ultimately have p_big: "a < 2 ^ 53 * p" by simp
  \<comment> \<open>so the quotient lies more than half a grid step of its own below n + 1\<close>
  from q1 expo_bounds [of q] have "2 powi eq \<le> q" by (simp add: eq_def)
  moreover have "(2::real) powi eq = 2 ^ 52 * pq" using pow2_split [of eq] by (simp add: pq_def)
  ultimately have pq_le: "2 ^ 52 * pq \<le> q" by simp
  have gap: "q + pq / 2 < of_int n + 1"
  proof -
    from step have "q * 10000 + p \<le> 10000 * (of_int n + 1)" by (simp add: aq)
    moreover from p_big have "q * 10000 < 2 ^ 53 * p" by (simp add: aq)
    moreover note pq_le
    ultimately show ?thesis by simp
  qed
  \<comment> \<open>rounding: not below n, and below n + 1\<close>
  have "\<bar>q\<bar> < 2 ^ 53" using q1 q10 by simp
  with nq have ge: "of_int n \<le> round_double q" by (rule rd_ge_int)
  have uq_neg: "eq - 52 \<le> 0" using eq_hi by simp
  define M where "M = (n + 1) * 2 ^ nat (- (eq - 52))"
  have M: "real_of_int (n + 1) = of_int M * pq"
    unfolding M_def pq_def using uq_neg by (rule int_as_multiple)
  then have M': "of_int M * pq = of_int n + 1" by simp
  have "(of_int (M - 1) + 1 / 2) * pq = of_int M * pq - pq / 2"
    by (simp add: algebra_simps)
  then have h: "(of_int (M - 1) + 1 / 2) * pq = of_int n + 1 - pq / 2"
    by (simp only: M')
  from gap have "q < of_int n + 1 - pq / 2" by linarith
  then have "q < (of_int (M - 1) + 1 / 2) * pq" by (simp only: h)
  then have "q < (of_int (M - 1) + 1 / 2) * 2 powi ulp_exp q" by (simp add: uq pq_def)
  then have "round_double q \<le> of_int (M - 1) * 2 powi ulp_exp q" by (rule rd_lt_mult)
  then have "round_double q \<le> of_int (M - 1) * pq" by (simp add: uq pq_def)
  moreover have "of_int (M - 1) * pq = of_int M * pq - pq" by (simp add: algebra_simps)
  then have "of_int (M - 1) * pq = of_int n + 1 - pq" by (simp only: M')
  ultimately have lt: "round_double q < of_int n + 1" using pq0 by linarith
  from ge lt have "\<lfloor>round_double q\<rfloor> = n" by (intro floor_unique) simp_all
  then show ?thesis by (simp only: n_def q_def a_def)
qed

lemma pow2_shift: "u \<le> c \<Longrightarrow> (2::real) powi c = 2 ^ nat (c - u) * 2 powi u"
proof -
  assume "u \<le> c"
  then have "(2::real) powi (c - u) = 2 ^ nat (c - u)" by (simp add: power_int_def)
  moreover have "(2::real) powi ((c - u) + u) = 2 powi (c - u) * 2 powi u"
    by (rule power_int_add) simp
  ultimately show ?thesis by simp
qed

lemma rd_ge_small_int:
  assumes a: "of_int n \<le> x" and x: "0 < x" and n: "real_of_int n \<le> 2 ^ 53"
  shows "of_int n \<le> round_double x"
proof (cases "\<bar>x\<bar> < 2 ^ 53")
  case True
  with a show ?thesis by (rule rd_ge_int)
next
  case False
  with x have "2 powi 53 \<le> \<bar>x\<bar>" by simp
  then have e: "53 \<le> expo x" by (rule expo_ge)
  then have "(2::real) powi 53 \<le> 2 powi expo x" by (intro power_int_increasing) auto
  moreover have "2 powi expo x \<le> round_double x" using x e by (intro rd_lower) auto
  ultimately show ?thesis using n by simp
qed

lemma dbl_limit_half: "2 ^ 1023 \<le> dbl_limit"
proof -
  have "(2::real) ^ 970 \<le> 2 ^ 1023" by (rule power_increasing) simp_all
  moreover have "(2::real) ^ 1024 = 2 * 2 ^ 1023" by simp
  ultimately show ?thesis unfolding dbl_limit_def by linarith
qed

lemma dbl_limit_less: "dbl_limit < 2 ^ 1024"
  by (simp add: dbl_limit_def)

lemma dbl_limit_eq: "dbl_limit = of_int (2 ^ 54 - 1) * 2 powi 970"
proof -
  have "(2::real) ^ 1024 = 2 ^ 54 * 2 ^ 970" by (simp flip: power_add)
  then show ?thesis by (simp add: dbl_limit_def algebra_simps)
qed

lemma dbl_limit_eq': "dbl_limit = (of_int (2 ^ 53 - 1) + 1 / 2) * 2 powi 971"
proof -
  have "(2::real) ^ 1024 = 2 ^ 53 * 2 ^ 971" by (simp flip: power_add)
  moreover have "(2::real) ^ 971 = 2 * 2 ^ 970" by simp
  ultimately show ?thesis by (simp add: dbl_limit_def algebra_simps)
qed

lemma rd_below_limit:
  assumes "x < dbl_limit"
  shows "round_double x < 2 ^ 1024"
proof (cases "x \<le> 0")
  case True
  then have "round_double x \<le> 0" by (rule rd_nonpos)
  then show ?thesis by (rule le_less_trans) simp
next
  case False
  then have x: "0 < x" "x \<noteq> 0" by simp_all
  from assms dbl_limit_less have "x < 2 ^ 1024" by simp
  with x have "\<bar>x\<bar> < 2 powi 1024" by simp
  with x(2) have e: "expo x < 1024" by (rule expo_less)
  then have u: "ulp_exp x \<le> 971" by (simp add: ulp_exp_def)
  show ?thesis
  proof (cases "ulp_exp x = 971")
    case True
    from assms have "x < (of_int (2 ^ 53 - 1) + 1 / 2) * 2 powi ulp_exp x"
      by (simp only: True dbl_limit_eq' [symmetric])
    then have "round_double x \<le> of_int (2 ^ 53 - 1) * 2 powi ulp_exp x" by (rule rd_lt_mult)
    also have "\<dots> < 2 ^ 53 * 2 powi 971" by (simp add: True)
    also have "\<dots> = 2 ^ 1024" by simp
    finally show ?thesis .
  next
    case False
    with u have u': "ulp_exp x \<le> 970" by simp
    have "dbl_limit = of_int (2 ^ 54 - 1) * (2 ^ nat (970 - ulp_exp x) * 2 powi ulp_exp x)"
      using pow2_shift [OF u'] by (simp only: dbl_limit_eq)
    then have eq: "dbl_limit = of_int ((2 ^ 54 - 1) * 2 ^ nat (970 - ulp_exp x)) * 2 powi ulp_exp x"
      by simp
    from assms have "x \<le> of_int ((2 ^ 54 - 1) * 2 ^ nat (970 - ulp_exp x)) * 2 powi ulp_exp x"
      by (simp only: eq [symmetric])
    then have "round_double x \<le> of_int ((2 ^ 54 - 1) * 2 ^ nat (970 - ulp_exp x)) * 2 powi ulp_exp x"
      by (rule rd_le_mult)
    then have "round_double x \<le> dbl_limit" by (simp only: eq [symmetric])
    with dbl_limit_less show ?thesis by simp
  qed
qed

lemma rd_above_limit:
  assumes "- dbl_limit < x"
  shows "- (2 ^ 1024) < round_double x"
proof (cases "0 \<le> x")
  case True
  then have "0 \<le> round_double x" by (rule rd_nonneg)
  then show ?thesis by (rule less_le_trans [rotated]) simp
next
  case False
  then have x: "x < 0" "x \<noteq> 0" by simp_all
  from assms dbl_limit_less have "- (2 ^ 1024) < x" by simp
  with x have "\<bar>x\<bar> < 2 powi 1024" by simp
  with x(2) have e: "expo x < 1024" by (rule expo_less)
  then have u: "ulp_exp x \<le> 971" by (simp add: ulp_exp_def)
  show ?thesis
  proof (cases "ulp_exp x = 971")
    case True
    have "(of_int (- (2 ^ 53 - 1)) - 1 / 2) * 2 powi ulp_exp x = - dbl_limit"
      by (simp only: True dbl_limit_eq') simp
    with assms have "(of_int (- (2 ^ 53 - 1)) - 1 / 2) * 2 powi ulp_exp x < x" by simp
    then have "of_int (- (2 ^ 53 - 1)) * 2 powi ulp_exp x \<le> round_double x" by (rule rd_gt_mult)
    moreover have "- (2 ^ 53 * 2 powi 971) < of_int (- (2 ^ 53 - 1)) * (2::real) powi ulp_exp x"
      by (simp add: True)
    moreover have "(2::real) ^ 53 * 2 powi 971 = 2 ^ 1024" by simp
    ultimately show ?thesis by simp
  next
    case False
    with u have u': "ulp_exp x \<le> 970" by simp
    have "dbl_limit = of_int (2 ^ 54 - 1) * (2 ^ nat (970 - ulp_exp x) * 2 powi ulp_exp x)"
      using pow2_shift [OF u'] by (simp only: dbl_limit_eq)
    then have eq: "of_int (- ((2 ^ 54 - 1) * 2 ^ nat (970 - ulp_exp x))) * 2 powi ulp_exp x = - dbl_limit"
      by simp
    from assms have "of_int (- ((2 ^ 54 - 1) * 2 ^ nat (970 - ulp_exp x))) * 2 powi ulp_exp x \<le> x"
      by (simp only: eq)
    then have "of_int (- ((2 ^ 54 - 1) * 2 ^ nat (970 - ulp_exp x))) * 2 powi ulp_exp x \<le> round_double x"
      by (rule rd_ge_mult)
    then have "- dbl_limit \<le> round_double x" by (simp only: eq)
    with dbl_limit_less show ?thesis by simp
  qed
qed

lemma to_double_finite: "\<bar>x\<bar> < dbl_limit \<Longrightarrow> to_double x = Finite (round_double x)"
proof -
  assume "\<bar>x\<bar> < dbl_limit"
  then have "x < dbl_limit" "- dbl_limit < x" by simp_all
  then have "round_double x < 2 ^ 1024" "- (2 ^ 1024) < round_double x"
    by (simp_all only: rd_below_limit rd_above_limit)
  then show ?thesis by (simp add: to_double_def)
qed

lemma to_double_FiniteD:
  "to_double x = Finite a \<Longrightarrow> a = round_double x \<and> \<bar>a\<bar> < 2 ^ 1024"
  by (auto simp: to_double_def Let_def split: if_splits)

lemma rd_near:
  assumes lo: "2 powi e \<le> \<bar>x\<bar>" and hi: "\<bar>x\<bar> < 2 powi (e + 1)" and n: "- 1022 \<le> e"
    and near: "\<bar>x - of_int m * 2 powi (e - 52)\<bar> < 2 powi (e - 53)"
  shows "round_double x = of_int m * 2 powi (e - 52)"
proof -
  from lo hi have "expo x = e" by (rule expo_unique)
  with n have u: "ulp_exp x = e - 52" by (simp add: ulp_exp_def)
  have "(2::real) powi (e - 53 + 1) = 2 powi (e - 53) * 2 powi 1"
    by (rule power_int_add) simp
  moreover have "e - 53 + 1 = e - 52" by simp
  ultimately have half: "(2::real) powi (e - 53) = 2 powi (e - 52) / 2" by simp
  from near have "\<bar>x - of_int m * 2 powi (e - 52)\<bar> < 2 powi (e - 52) / 2"
    by (simp only: half)
  then have "x < of_int m * 2 powi (e - 52) + 2 powi (e - 52) / 2"
    and "of_int m * 2 powi (e - 52) - 2 powi (e - 52) / 2 < x"
    by linarith+
  then have "x < (of_int m + 1 / 2) * 2 powi (e - 52)"
    and "(of_int m - 1 / 2) * 2 powi (e - 52) < x"
    by (simp_all add: algebra_simps)
  then have "round_double x \<le> of_int m * 2 powi ulp_exp x"
    and "of_int m * 2 powi ulp_exp x \<le> round_double x"
    by (simp_all only: u [symmetric] rd_lt_mult rd_gt_mult)
  then show ?thesis by (simp add: u)
qed


lemma rd_example_quotient: "round_double (1 / (5764607523034235 / 2 ^ 59)) = 100"
  using rd_near [of 6 "1 / (5764607523034235 / 2 ^ 59)" "100 * 2 ^ 46"] by simp

lemma rd_two: "round_double 2 = 2"
  using rd_of_int [of 2] by simp

section \<open>Properties of the decimation\<close>

lemma collect_map_id:
  "(\<And>c. c \<in> set cs \<Longrightarrow> f c = Inr c) \<Longrightarrow> collect (map f cs) = Inr cs"
  by (induction cs) auto

lemma simplify_compact: "compact c \<Longrightarrow> simplify_coordinates f c = Inr c"
proof (induction f c rule: simplify_coordinates.induct)
  case (1 factor cs)
  show ?case
  proof (cases "list_all is_number cs")
    case True
    then show ?thesis by simp
  next
    case False
    with "1.prems" have len: "length cs \<le> 100" and all: "list_all compact cs" by auto
    have "collect (map (simplify_coordinates factor) cs) = Inr cs"
    proof (rule collect_map_id)
      fix c assume "c \<in> set cs"
      with all have "compact c" by (simp add: list_all_iff)
      with "1.IH"(2) [OF False _ \<open>c \<in> set cs\<close>] len show "simplify_coordinates factor c = Inr c"
        by simp
    qed
    with False len show ?thesis by simp
  qed
qed simp_all

lemma point_compact: "is_point c \<Longrightarrow> compact c"
  by (cases c) auto

lemma ring_compact: "length pts \<le> 100 \<Longrightarrow> list_all is_point pts \<Longrightarrow> compact (PList pts)"
  by (auto simp: list_all_iff point_compact)

lemma point_not_number: "is_point c \<Longrightarrow> \<not> is_number c"
  by (cases c) auto

lemma ring_not_numbers: "pts \<noteq> [] \<Longrightarrow> list_all is_point pts \<Longrightarrow> \<not> list_all is_number pts"
  by (cases pts) (auto simp: point_not_number)

lemma length_every_nth: "0 < k \<Longrightarrow> length (every_nth k xs) = (length xs + k - 1) div k"
proof (induction k xs rule: every_nth.induct)
  case (1 k)
  then show ?case by simp
next
  case (2 k x xs)
  show ?case
  proof (cases "k - 1 \<le> length xs")
    case True
    with 2 have "length (every_nth k (x # xs)) = Suc (length xs div k)" by simp
    also have "\<dots> = (length xs + k) div k" using \<open>0 < k\<close> by simp
    finally show ?thesis by simp
  next
    case False
    then have "drop (k - 1) xs = []" by simp
    then have "length (every_nth k (x # xs)) = 1" by simp
    moreover from False \<open>0 < k\<close> have "(length (x # xs) + k - 1) div k = 1"
      by (simp add: div_nat_eqI)
    ultimately show ?thesis by simp
  qed
qed

lemma length_every_nth_less:
  assumes "2 \<le> k" "2 \<le> length xs"
  shows "length (every_nth k xs) < length xs"
proof -
  let ?n = "length xs"
  have "2 * k \<le> ?n * k" "?n * 2 \<le> ?n * k"
    using assms by (simp_all only: mult_le_mono1 mult_le_mono2)
  then have "?n + k - 1 < ?n * k" using assms by linarith
  then have "(?n + k - 1) div k < ?n"
    using assms by (simp add: div_less_iff_less_mult)
  then show ?thesis using assms by (simp add: length_every_nth)
qed

lemma hd_thin: "hd (thin k cs) = hd cs"
  by (simp add: thin_def)

lemma last_thin: "last (thin k cs) = last cs"
  by (simp add: thin_def)

lemma length_thin_less:
  assumes "2 \<le> k" "4 \<le> length cs"
  shows "length (thin k cs) < length cs"
proof -
  have "2 \<le> length (butlast (tl cs))" using assms by simp
  with assms have "length (every_nth k (butlast (tl cs))) < length (butlast (tl cs))"
    by (simp only: length_every_nth_less)
  then show ?thesis using assms by (simp add: thin_def)
qed

lemma length_every_nth_le: "0 < k \<Longrightarrow> length (every_nth k xs) \<le> length xs"
proof (cases "xs = []")
  case True
  then show ?thesis by simp
next
  case False
  assume "0 < k"
  then obtain j where k: "k = Suc j" by (cases k) simp_all
  from False obtain m where m: "length xs = Suc m" by (cases xs) simp_all
  have "Suc m + Suc j - 1 \<le> Suc m * Suc j" by simp
  then have "(Suc m + Suc j - 1) div Suc j \<le> (Suc m * Suc j) div Suc j" by (rule div_le_mono)
  moreover have "(Suc m * Suc j) div Suc j = Suc m" by (rule div_mult_self_is_m) simp
  ultimately have "(Suc m + Suc j - 1) div Suc j \<le> Suc m" by (simp only:)
  then show ?thesis by (simp add: length_every_nth k m)
qed

lemma length_thin_le:
  assumes "0 < k" and "2 \<le> length cs"
  shows "length (thin k cs) \<le> length cs"
proof -
  have "length (every_nth k (butlast (tl cs))) \<le> length (butlast (tl cs))"
    using assms(1) by (rule length_every_nth_le)
  then show ?thesis using assms(2) by (simp add: thin_def)
qed

lemma to_double_small: "\<bar>x\<bar> < 2 ^ 1023 \<Longrightarrow> to_double x = Finite (round_double x)"
  using dbl_limit_half by (intro to_double_finite) simp

lemma stride_finite:
  assumes "factor \<noteq> 0" and "\<bar>1 / factor\<bar> < dbl_limit"
  shows "stride factor = Inr (nat (max 1 (py_int (round_double (1 / factor)))))"
  using assms by (simp add: stride_def to_double_finite)

lemma stride_small_factor:
  assumes "0 < factor" and "factor \<le> 1 / 2" and "\<bar>1 / factor\<bar> < dbl_limit"
  shows "\<exists>step. stride factor = Inr step \<and> 2 \<le> step"
proof -
  have "2 \<le> 1 / factor" using assms(1,2) by (simp add: field_simps)
  then have "real_of_int 2 \<le> 1 / factor" by simp
  then have "real_of_int 2 \<le> round_double (1 / factor)"
    using assms(1) by (intro rd_ge_small_int) simp_all
  then have "2 \<le> py_int (round_double (1 / factor))" by (simp add: py_int_def le_floor_iff)
  then show ?thesis using assms by (simp add: stride_finite)
qed

lemma stride_half: "stride (1 / 2) = Inr 2"
  by (simp add: stride_def to_double_small rd_two py_int_def)

lemma stride_hundredth: "stride (1 / 100) = Inr 100"
  using rd_of_int [of 100] by (simp add: stride_def to_double_small py_int_def)

lemma stride_three_quarters: "stride (3 / 4) = Inr 1"
proof -
  have "round_double (4 / 3) = of_int 6004799503160661 * 2 powi (0 - 52)"
    by (rule rd_near) simp_all
  then have r: "round_double (4 / 3) = 6004799503160661 / 4503599627370496" by simp
  have "\<lfloor>6004799503160661 / 4503599627370496 :: real\<rfloor> = 1" by (rule floor_unique) simp_all
  then show ?thesis by (simp add: stride_def to_double_small r py_int_def)
qed

text \<open>
  At the double nearest to 0.01, the default factor, the exact quotient is just below 100
  and the rounded division gives 100.
\<close>

lemma stride_default_factor: "stride (5764607523034235 / 2 ^ 59) = Inr 100"
  using rd_example_quotient by (simp add: stride_def to_double_small py_int_def)

lemma simplify_ring:
  "\<not> list_all is_number cs \<Longrightarrow> 100 < length cs \<Longrightarrow> stride factor = Inr step \<Longrightarrow>
   simplify_coordinates factor (PList cs) = Inr (PList (thin step cs))"
  by simp

lemma thin_samples:
  "thin 2 (replicate 300 (PList [PInt 0, PInt 0])) = replicate 151 (PList [PInt 0, PInt 0])"
  "thin 2 (replicate 151 (PList [PInt 0, PInt 0])) = replicate 77 (PList [PInt 0, PInt 0])"
  "thin 100 (replicate 150 (PList [PInt 0, PInt 0])) = replicate 4 (PList [PInt 0, PInt 0])"
  "thin 1 (replicate 101 (PList [PInt 0, PInt 0])) = replicate 101 (PList [PInt 0, PInt 0])"
  by code_simp+

lemma sample_not_numbers: "0 < n \<Longrightarrow> \<not> list_all is_number (replicate n (PList [PInt 0, PInt 0]))"
  by (cases n) simp_all

lemma decimate_sample:
  assumes "stride factor = Inr step" and "100 < n"
    and "thin step (replicate n (PList [PInt 0, PInt 0])) = out"
  shows "simplify_coordinates factor (PList (replicate n (PList [PInt 0, PInt 0]))) = Inr (PList out)"
proof -
  from assms(2) have "\<not> list_all is_number (replicate n (PList [PInt 0, PInt 0]))"
    by (intro sample_not_numbers) simp
  moreover from assms(2) have "100 < length (replicate n (PList [PInt 0, PInt 0]))" by simp
  ultimately have "simplify_coordinates factor (PList (replicate n (PList [PInt 0, PInt 0])))
      = Inr (PList (thin step (replicate n (PList [PInt 0, PInt 0]))))"
    using assms(1) by (rule simplify_ring)
  then show ?thesis by (simp only: assms(3))
qed

lemma decimate_samples:
  "simplify_coordinates (1 / 2) (PList (replicate 300 (PList [PInt 0, PInt 0])))
     = Inr (PList (replicate 151 (PList [PInt 0, PInt 0])))"
  "simplify_coordinates (1 / 2) (PList (replicate 151 (PList [PInt 0, PInt 0])))
     = Inr (PList (replicate 77 (PList [PInt 0, PInt 0])))"
  "simplify_coordinates (1 / 100) (PList (replicate 150 (PList [PInt 0, PInt 0])))
     = Inr (PList (replicate 4 (PList [PInt 0, PInt 0])))"
  "simplify_coordinates (3 / 4) (PList (replicate 101 (PList [PInt 0, PInt 0])))
     = Inr (PList (replicate 101 (PList [PInt 0, PInt 0])))"
proof -
  show "simplify_coordinates (1 / 2) (PList (replicate 300 (PList [PInt 0, PInt 0])))
     = Inr (PList (replicate 151 (PList [PInt 0, PInt 0])))"
    by (rule decimate_sample [OF stride_half _ thin_samples(1)]) simp
  show "simplify_coordinates (1 / 2) (PList (replicate 151 (PList [PInt 0, PInt 0])))
     = Inr (PList (replicate 77 (PList [PInt 0, PInt 0])))"
    by (rule decimate_sample [OF stride_half _ thin_samples(2)]) simp
  show "simplify_coordinates (1 / 100) (PList (replicate 150 (PList [PInt 0, PInt 0])))
     = Inr (PList (replicate 4 (PList [PInt 0, PInt 0])))"
    by (rule decimate_sample [OF stride_hundredth _ thin_samples(3)]) simp
  show "simplify_coordinates (3 / 4) (PList (replicate 101 (PList [PInt 0, PInt 0])))
     = Inr (PList (replicate 101 (PList [PInt 0, PInt 0])))"
    by (rule decimate_sample [OF stride_three_quarters _ thin_samples(4)]) simp
qed

text \<open>
  C7. A coordinate ring with at most 100 points is returned unchanged, for every factor
  (zero included: the factor is not read).
\<close>

theorem decimate_small_ring_unchanged:
  "length pts \<le> 100 \<Longrightarrow> list_all is_point pts \<Longrightarrow>
   simplify_coordinates factor (PList pts) = Inr (PList pts)"
  by (rule simplify_compact) (rule ring_compact)

theorem decimate_small_ring_unchanged_witness:
  "length [PList [PInt 0, PInt 0], PList [PInt 1, PInt 0], PList [PInt 0, PInt 1], PList [PInt 0, PInt 0]] \<le> 100
   \<and> list_all is_point [PList [PInt 0, PInt 0], PList [PInt 1, PInt 0], PList [PInt 0, PInt 1], PList [PInt 0, PInt 0]]
   \<and> simplify_coordinates (1 / 100)
        (PList [PList [PInt 0, PInt 0], PList [PInt 1, PInt 0], PList [PInt 0, PInt 1], PList [PInt 0, PInt 0]])
      = Inr (PList [PList [PInt 0, PInt 0], PList [PInt 1, PInt 0], PList [PInt 0, PInt 1], PList [PInt 0, PInt 0]])"
  using decimate_small_ring_unchanged
    [of "[PList [PInt 0, PInt 0], PList [PInt 1, PInt 0], PList [PInt 0, PInt 1], PList [PInt 0, PInt 0]]" "1 / 100"]
  by simp

text \<open>
  C4, as stated, fails: with stride 2 a ring of 300 points is cut to 151 points, and a
  second application cuts these 151 points to 77.
\<close>

theorem decimate_idempotent_counterexample:
  "simplify_coordinates (1 / 2) (PList (replicate 300 (PList [PInt 0, PInt 0])))
     = Inr (PList (replicate 151 (PList [PInt 0, PInt 0])))
   \<and> simplify_coordinates (1 / 2) (PList (replicate 151 (PList [PInt 0, PInt 0])))
     = Inr (PList (replicate 77 (PList [PInt 0, PInt 0])))
   \<and> simplify_coordinates (1 / 2) (PList (replicate 151 (PList [PInt 0, PInt 0])))
     \<noteq> Inr (PList (replicate 151 (PList [PInt 0, PInt 0])))"
proof -
  have "replicate 77 (PList [PInt 0, PInt 0]) \<noteq> replicate 151 (PList [PInt 0, PInt 0])"
    by (simp add: replicate_eq_replicate)
  then show ?thesis by (simp only: decimate_samples) simp
qed

text \<open>
  C4, amended. When the first application returns an array that is compact (no array in it
  other than a coordinate pair has more than 100 entries), a second application with the
  same factor returns it unchanged.
\<close>

theorem decimate_idempotent_on_compact:
  "simplify_coordinates factor c = Inr r \<Longrightarrow> compact r \<Longrightarrow> simplify_coordinates factor r = Inr r"
  by (rule simplify_compact)

theorem decimate_idempotent_on_compact_witness:
  "simplify_coordinates (1 / 100) (PList (replicate 150 (PList [PInt 0, PInt 0])))
     = Inr (PList (replicate 4 (PList [PInt 0, PInt 0])))
   \<and> compact (PList (replicate 4 (PList [PInt 0, PInt 0])))
   \<and> simplify_coordinates (1 / 100) (PList (replicate 4 (PList [PInt 0, PInt 0])))
     = Inr (PList (replicate 4 (PList [PInt 0, PInt 0])))"
proof -
  have a: "simplify_coordinates (1 / 100) (PList (replicate 150 (PList [PInt 0, PInt 0])))
     = Inr (PList (replicate 4 (PList [PInt 0, PInt 0])))"
    by (rule decimate_samples)
  have b: "compact (PList (replicate 4 (PList [PInt 0, PInt 0])))"
    by code_simp
  from a b decimate_idempotent_on_compact [OF a b] show ?thesis by simp
qed

text \<open>
  C5, as stated, fails: for a factor between 1/2 and 1 the stride is 1 and a ring of 101
  points comes back with all its 101 points.
\<close>

theorem decimate_fewer_points_counterexample:
  "(3 / 4 :: real) < 1
   \<and> length (replicate 101 (PList [PInt 0, PInt 0])) = 101
   \<and> simplify_coordinates (3 / 4) (PList (replicate 101 (PList [PInt 0, PInt 0])))
     = Inr (PList (replicate 101 (PList [PInt 0, PInt 0])))"
  by (simp only: decimate_samples) simp

text \<open>
  C5, amended. For a ring of more than 100 points and a factor other than zero whose
  reciprocal is within the range of a float, the result begins with the ring's first
  point, ends with its last point and has no more points than the ring; for
  0 < factor \<le> 1/2 (a stride of at least 2) it has strictly fewer points.
\<close>

theorem decimate_large_ring:
  assumes "100 < length pts" and "list_all is_point pts"
    and "factor \<noteq> 0" and "\<bar>1 / factor\<bar> < dbl_limit"
  shows "\<exists>out. simplify_coordinates factor (PList pts) = Inr (PList out)
           \<and> hd out = hd pts \<and> last out = last pts \<and> length out \<le> length pts
           \<and> (0 < factor \<and> factor \<le> 1 / 2 \<longrightarrow> length out < length pts)"
proof -
  define step where "step = nat (max 1 (py_int (round_double (1 / factor))))"
  have step: "stride factor = Inr step" unfolding step_def using assms(3,4) by (rule stride_finite)
  have pos: "0 < step" by (simp add: step_def)
  from assms(1) have "pts \<noteq> []" by auto
  then have "\<not> list_all is_number pts" using assms(2) by (rule ring_not_numbers)
  then have out: "simplify_coordinates factor (PList pts) = Inr (PList (thin step pts))"
    using assms(1) step by (rule simplify_ring)
  have le: "length (thin step pts) \<le> length pts"
    using pos assms(1) by (intro length_thin_le) auto
  have less: "length (thin step pts) < length pts" if "0 < factor" "factor \<le> 1 / 2"
  proof -
    from that assms(4) obtain s where "stride factor = Inr s" "2 \<le> s"
      using stride_small_factor by blast
    with step have "2 \<le> step" by simp
    then show ?thesis using assms(1) by (intro length_thin_less) auto
  qed
  from out le less show ?thesis by (auto simp: hd_thin last_thin)
qed

theorem decimate_large_ring_witness:
  "100 < length (replicate 101 (PList [PInt 0, PInt 0]))
   \<and> list_all is_point (replicate 101 (PList [PInt 0, PInt 0]))
   \<and> (1 / 2 :: real) \<noteq> 0 \<and> \<bar>1 / (1 / 2 :: real)\<bar> < dbl_limit
   \<and> (\<exists>out. simplify_coordinates (1 / 2) (PList (replicate 101 (PList [PInt 0, PInt 0]))) = Inr (PList out)
         \<and> hd out = hd (replicate 101 (PList [PInt 0, PInt 0]))
         \<and> last out = last (replicate 101 (PList [PInt 0, PInt 0]))
         \<and> length out < length (replicate 101 (PList [PInt 0, PInt 0])))"
proof -
  have a: "100 < length (replicate 101 (PList [PInt 0, PInt 0]))" by simp
  have b: "list_all is_point (replicate 101 (PList [PInt 0, PInt 0]))" by (simp add: list_all_iff)
  have c: "(1 / 2 :: real) \<noteq> 0" by simp
  have d: "\<bar>1 / (1 / 2 :: real)\<bar> < dbl_limit" using dbl_limit_half by simp
  from a b c d decimate_large_ring [OF a b c d] show ?thesis by auto
qed

section \<open>Properties of the batch writer\<close>








section \<open>Properties of the sort key\<close>

text \<open>
  C3 does not hold of the code. A name is replaced by \<open>Unknown\<close> before it is trimmed, so
  a name of one blank is kept, trimmed to the empty text and written into the key, while a
  missing name, \<^verbatim>\<open>None\<close> and the empty string give \<open>Unknown\<close>.
\<close>

theorem sort_key_blank_not_defaulted:
  "hierarchy_sk [(''mokupuni'', PStr '' ''), (''moku'', PStr '' '')] = Inr ''MOKUPUNI##MOKU#''
   \<and> hierarchy_sk [(''mokupuni'', PStr []), (''moku'', PStr [])] = Inr ''MOKUPUNI#Unknown#MOKU#Unknown''
   \<and> hierarchy_sk [(''mokupuni'', PNone), (''moku'', PNone)] = Inr ''MOKUPUNI#Unknown#MOKU#Unknown''
   \<and> hierarchy_sk [] = Inr ''MOKUPUNI#Unknown#MOKU#Unknown''"
  by (simp add: hierarchy_sk_def format_hierarchical_key_def dict_get_def py_or_def strip_def
      is_space_def)

section \<open>Properties of the display priority\<close>

lemma py_int_mono:
  assumes "x \<le> y"
  shows "py_int x \<le> py_int y"
proof (cases "0 \<le> x")
  case True
  with assms have "0 \<le> y" by simp
  with True assms show ?thesis by (simp add: py_int_def floor_mono)
next
  case False
  show ?thesis
  proof (cases "0 \<le> y")
    case True
    from False have "\<lceil>x\<rceil> \<le> 0" by (simp add: ceiling_le_zero)
    moreover from True have "0 \<le> \<lfloor>y\<rfloor>" by simp
    ultimately have "\<lceil>x\<rceil> \<le> \<lfloor>y\<rfloor>" by linarith
    then show ?thesis using False True by (simp add: py_int_def)
  next
    case y: False
    with False assms show ?thesis by (simp add: py_int_def ceiling_mono)
  qed
qed

text \<open>Every finite result of \<^verbatim>\<open>float\<close> is a rounded value within the range of a double.\<close>

lemma py_float_image:
  assumes "py_float parse v = Inr (Finite a)"
  shows "(\<exists>r. a = round_double r) \<and> \<bar>a\<bar> < 2 ^ 1024"
proof (cases v)
  case (PBool b)
  have "round_double (real_of_int 1) = of_int 1" "round_double (real_of_int 0) = of_int 0"
    by (rule rd_of_int, simp)+
  then have "round_double 1 = 1" "round_double 0 = 0" by simp_all
  with assms PBool show ?thesis by (cases b) (auto intro: sym)
next
  case (PInt i)
  with assms have "to_double (real_of_int i) = Finite a" by (simp split: pyfloat.splits)
  from to_double_FiniteD [OF this] show ?thesis by blast
next
  case (PNum r)
  with assms have "to_double r = Finite a" by simp
  from to_double_FiniteD [OF this] show ?thesis by blast
next
  case (PStr s)
  with assms obtain x where "to_double x = Finite a"
    by (auto split: option.splits pyfloat.splits)
  from to_double_FiniteD [OF this] show ?thesis by blast
qed (use assms in simp_all)

text \<open>
  The rounding of the quotient does not show in the clamped priority: below 1 and from 10
  on both sides are clamped alike, and in between the integer parts agree.
\<close>

lemma clamp_quotient:
  "min 10 (max 1 (py_int (round_double (round_double r / 10000))))
   = min 10 (max 1 (py_int (round_double r / 10000)))"
proof -
  define a where "a = round_double r"
  consider "a < 10000" | "10000 \<le> a" "a < 100000" | "100000 \<le> a" by linarith
  then have "min 10 (max 1 (py_int (round_double (a / 10000)))) = min 10 (max 1 (py_int (a / 10000)))"
  proof cases
    case 1
    then have q: "a / 10000 < 1" by simp
    then have "round_double (a / 10000) \<le> 1" by (intro rd_le_one) simp
    then have "py_int (round_double (a / 10000)) \<le> py_int 1" by (rule py_int_mono)
    moreover from q have "py_int (a / 10000) \<le> py_int 1" by (intro py_int_mono) simp
    ultimately show ?thesis by (simp add: py_int_def)
  next
    case 2
    then have "\<lfloor>round_double (a / 10000)\<rfloor> = \<lfloor>a / 10000\<rfloor>"
      unfolding a_def by (rule quotient_floor)
    moreover from 2 have "0 \<le> a / 10000" by simp
    moreover then have "0 \<le> round_double (a / 10000)" by (rule rd_nonneg)
    ultimately show ?thesis by (simp add: py_int_def)
  next
    case 3
    then have q: "real_of_int 10 \<le> a / 10000" by simp
    then have "real_of_int 10 \<le> round_double (a / 10000)"
      using 3 by (intro rd_ge_small_int) simp_all
    then have "py_int 10 \<le> py_int (round_double (a / 10000))" by (intro py_int_mono) simp
    moreover from q have "py_int 10 \<le> py_int (a / 10000)" by (intro py_int_mono) simp
    ultimately show ?thesis by (simp add: py_int_def)
  qed
  then show ?thesis by (simp only: a_def)
qed

lemma area_priority_finite:
  assumes "py_float parse area = Inr (Finite a)"
  shows "area_priority parse area = Inr (min 10 (max 1 (py_int (a / 10000))))"
proof -
  from py_float_image [OF assms] obtain r where a: "a = round_double r" and fin: "\<bar>a\<bar> < 2 ^ 1024"
    by blast
  have "\<bar>a / 10000\<bar> \<le> \<bar>a\<bar> / 2" by (simp add: abs_divide)
  also have "\<dots> < 2 ^ 1024 / 2" using fin by simp
  also have "\<dots> = (2::real) ^ 1023" by simp
  finally have "to_double (a / 10000) = Finite (round_double (a / 10000))" by (rule to_double_small)
  then have "area_priority parse area = Inr (min 10 (max 1 (py_int (round_double (a / 10000)))))"
    using assms by (simp add: area_priority_def)
  then show ?thesis using clamp_quotient [of r] by (simp add: a)
qed

lemma area_priority_zero: "area_priority parse (PInt 0) = Inr 1"
proof -
  have z: "to_double 0 = Finite 0" by (simp add: to_double_small rd_zero)
  then have "py_float parse (PInt 0) = Inr (Finite 0)" by simp
  from area_priority_finite [OF this] show ?thesis by (simp add: py_int_def)
qed

lemma display_priority_absent:
  "map_of props ''gisacres'' = None \<Longrightarrow> map_of props ''st_areashape'' = None \<Longrightarrow>
   display_priority parse props = Inr 1"
  by (simp add: display_priority_def area_of_def dict_get_def area_priority_zero)






section \<open>Properties of the record builder\<close>

lemma map_of_put: "map_of (put k' v it) k = (if k = k' then Some v else map_of it k)"
  by (simp add: put_def update_conv')

lemma base_item_keys:
  "map_of (base_item pk sk an mn dn g) ''AhupuaaPK'' = Some (S (PStr pk))"
  "map_of (base_item pk sk an mn dn g) ''HierarchySK'' = Some (S (PStr sk))"
  "map_of (base_item pk sk an mn dn g) ''AhupuaaName'' = Some (S an)"
  "map_of (base_item pk sk an mn dn g) ''MokupuniName'' = Some (S mn)"
  "map_of (base_item pk sk an mn dn g) ''MokuName'' = Some (S dn)"
  "map_of (base_item pk sk an mn dn g) ''PrimaryKey'' = None"
  "map_of (base_item pk sk an mn dn g) ''SortKey'' = None"
  "map_of (base_item pk sk an mn dn g) ''Name'' = None"
  "map_of (base_item pk sk an mn dn g) ''IslandName'' = None"
  "map_of (base_item pk sk an mn dn g) ''DistrictName'' = None"
  by (simp_all add: base_item_def)

lemma add_centroid_keeps:
  "add_centroid l g an mn dn it = Inr it' \<Longrightarrow> k \<in> key_names \<Longrightarrow> map_of it' k = map_of it k"
  by (auto simp: add_centroid_def key_names_def map_of_put split: option.splits sum.splits)

lemma add_bounds_keeps: "k \<in> key_names \<Longrightarrow> map_of (add_bounds g it) k = map_of it k"
  by (auto simp: add_bounds_def key_names_def map_of_put split: option.splits)

lemma add_geometry_keeps: "k \<in> key_names \<Longrightarrow> map_of (add_geometry g it) k = map_of it k"
  by (auto simp: add_geometry_def key_names_def map_of_put Let_def split: option.splits)

lemma add_hints_keeps: "k \<in> key_names \<Longrightarrow> map_of (add_hints p it) k = map_of it k"
  by (auto simp: add_hints_def key_names_def map_of_put)

lemma add_properties_keeps: "k \<in> key_names \<Longrightarrow> map_of (add_properties l props it) k = map_of it k"
  by (auto simp: add_properties_def key_names_def map_of_put)

lemma add_metadata_keeps: "k \<in> key_names \<Longrightarrow> map_of (add_metadata l dv now f it) k = map_of it k"
  by (auto simp: add_metadata_def key_names_def map_of_put)

lemma priority_keeps: "k \<in> key_names \<Longrightarrow> map_of (put ''DisplayPriority'' v it) k = map_of it k"
  by (auto simp: key_names_def map_of_put)

lemma add_metadata_sets:
  "map_of (add_metadata l dv now f it) ''Metadata'' =
     Some (M [(''DataVersion'', N (show_int dv)),
              (''FeatureHash'', S (PStr (feature_hash l f))),
              (''LastUpdated'', S (PStr now))])"
  by (simp add: add_metadata_def map_of_put)

text \<open>How a built item arises: the steps of \<open>build_item\<close>, one after the other.\<close>

lemma build_item_steps:
  assumes "build_item l dv now idx feature = Inr it"
  shows "\<exists>fd props sk g it1 priority.
           feature = PDict fd
         \<and> dict_get fd ''properties'' (PDict []) = PDict props
         \<and> hierarchy_sk props = Inr sk
         \<and> derive l feature = Inr g
         \<and> add_centroid l g
              (dict_get props ''ahupuaa'' (dict_get props ''name'' (PStr (''Ahupuaa_'' @ show_nat idx))))
              (dict_get props ''mokupuni'' (PStr ''Unknown''))
              (dict_get props ''moku'' (PStr ''Unknown''))
              (base_item (''AHUPUAA#'' @ py_str (repr l) (feature_id l idx fd props)) sk
                 (dict_get props ''ahupuaa'' (dict_get props ''name'' (PStr (''Ahupuaa_'' @ show_nat idx))))
                 (dict_get props ''mokupuni'' (PStr ''Unknown''))
                 (dict_get props ''moku'' (PStr ''Unknown'')) g) = Inr it1
         \<and> display_priority (parse_float l) props = Inr priority
         \<and> it = add_metadata l dv now feature
                  (add_properties l props
                    (add_hints priority
                      (add_geometry g
                        (add_bounds g (put ''DisplayPriority'' (N (show_int priority)) it1)))))"
  using assms
  by (auto simp: build_item_def hierarchy_sk_def Let_def split: pyval.splits sum.splits)

lemma built_key:
  assumes "k \<in> key_names"
  shows "map_of
           (add_metadata l dv now f
             (add_properties l props
               (add_hints p (add_geometry g (add_bounds g (put ''DisplayPriority'' v it)))))) k
         = map_of it k"
  using assms
  by (simp add: add_metadata_keeps add_properties_keeps add_hints_keeps add_geometry_keeps
      add_bounds_keeps priority_keeps)

lemma key_names_mem:
  "''AhupuaaPK'' \<in> key_names" "''HierarchySK'' \<in> key_names" "''AhupuaaName'' \<in> key_names"
  "''MokupuniName'' \<in> key_names" "''MokuName'' \<in> key_names" "''PrimaryKey'' \<in> key_names"
  "''SortKey'' \<in> key_names" "''Name'' \<in> key_names" "''IslandName'' \<in> key_names"
  "''DistrictName'' \<in> key_names"
  by (simp_all add: key_names_def)

lemma built_metadata:
  assumes "build_item l dv now idx feature = Inr it"
  shows "map_of it ''Metadata'' =
     Some (M [(''DataVersion'', N (show_int dv)),
              (''FeatureHash'', S (PStr (feature_hash l feature))),
              (''LastUpdated'', S (PStr now))])"
  using build_item_steps [OF assms] by (auto simp: add_metadata_sets)

text \<open>
  C1, as stated, fails: the item built for a feature with id 7 has none of the names
  \<open>PrimaryKey\<close>, \<open>SortKey\<close>, \<open>Name\<close>, \<open>IslandName\<close>, \<open>DistrictName\<close>, and its \<open>Metadata\<close> map
  has no \<open>ContentHash\<close> entry.
\<close>

theorem wire_names_counterexample:
  "build_item (stand_in ''{}'' ''ec54c4c3671683bffd8cba2e5d1bc087'') 1700000000 ''2024-01-01T00:00:00'' 0
     (PDict [(''id'', PStr ''7''),
             (''properties'', PDict [(''ahupuaa'', PStr ''Waikiki''), (''moku'', PStr ''Kona''),
                                     (''mokupuni'', PStr ''Oahu'')])])
   = Inr [(''AhupuaaPK'', S (PStr ''AHUPUAA#7'')),
          (''HierarchySK'', S (PStr ''MOKUPUNI#Oahu#MOKU#Kona'')),
          (''AhupuaaName'', S (PStr ''Waikiki'')),
          (''MokupuniName'', S (PStr ''Oahu'')),
          (''MokuName'', S (PStr ''Kona'')),
          (''Geohash'', S (PStr ''0000000'')),
          (''GeohashPrefix'', S (PStr ''000'')),
          (''ZoomLevel'', N ''10''),
          (''SimplifiedBoundaries'', S (PStr ''{}'')),
          (''DisplayPriority'', N ''1''),
          (''FullGeometry'', S (PStr ''{}'')),
          (''StyleProperties'',
             M [(''FillColor'', S (PStr ''#A3C1AD'')), (''BorderColor'', S (PStr ''#2A6041'')),
                (''BorderWidth'', N ''2'')]),
          (''iOSRenderingHints'',
             M [(''StrokeWidth'', N ''2''), (''FillOpacity'', N ''0.5''), (''StrokeOpacity'', N ''0.8''),
                (''ZIndex'', N ''1''), (''LineDashPattern'', S (PStr ''[0]'')),
                (''SelectedFillColor'', S (PStr ''#C1E1AD'')),
                (''SelectedStrokeColor'', S (PStr ''#205841''))]),
          (''Properties'',
             M [(''ahupuaa'', S (PStr ''Waikiki'')), (''moku'', S (PStr ''Kona'')),
                (''mokupuni'', S (PStr ''Oahu''))]),
          (''Metadata'',
             M [(''DataVersion'', N ''1700000000''),
                (''FeatureHash'', S (PStr ''ec54c4c3671683bffd8cba2e5d1bc087'')),
                (''LastUpdated'', S (PStr ''2024-01-01T00:00:00''))])]"
  by (simp add: build_item_def stand_in_def dict_get_def format_hierarchical_key_def py_or_def
      strip_def is_space_def add_centroid_def no_geometry_def display_priority_absent
      Let_def feature_id_def base_item_def
      put_def add_bounds_def add_geometry_def add_hints_def add_properties_def add_metadata_def
      feature_hash_def show_int_def show_nat.simps digit_char_def)

text \<open>
  C1, amended. Every item that is built carries the key under \<open>AhupuaaPK\<close> with the value
  \<open>AHUPUAA#\<close> followed by the id, the sort key under \<open>HierarchySK\<close>, the three names under
  \<open>AhupuaaName\<close>, \<open>MokupuniName\<close> and \<open>MokuName\<close>, and a \<open>Metadata\<close> map whose digest is the
  string under \<open>FeatureHash\<close>; the names \<open>PrimaryKey\<close>, \<open>SortKey\<close>, \<open>Name\<close>, \<open>IslandName\<close> and
  \<open>DistrictName\<close> do not occur among its attributes.
\<close>

theorem item_wire_names:
  assumes "build_item l data_version now feature_index feature = Inr it"
  shows "\<exists>fd props sk.
           feature = PDict fd
         \<and> dict_get fd ''properties'' (PDict []) = PDict props
         \<and> hierarchy_sk props = Inr sk
         \<and> map_of it ''AhupuaaPK''
             = Some (S (PStr (''AHUPUAA#'' @ py_str (repr l) (feature_id l feature_index fd props))))
         \<and> map_of it ''HierarchySK'' = Some (S (PStr sk))
         \<and> map_of it ''AhupuaaName''
             = Some (S (dict_get props ''ahupuaa''
                          (dict_get props ''name'' (PStr (''Ahupuaa_'' @ show_nat feature_index)))))
         \<and> map_of it ''MokupuniName'' = Some (S (dict_get props ''mokupuni'' (PStr ''Unknown'')))
         \<and> map_of it ''MokuName'' = Some (S (dict_get props ''moku'' (PStr ''Unknown'')))
         \<and> map_of it ''Metadata''
             = Some (M [(''DataVersion'', N (show_int data_version)),
                        (''FeatureHash'', S (PStr (feature_hash l feature))),
                        (''LastUpdated'', S (PStr now))])
         \<and> map_of it ''PrimaryKey'' = None \<and> map_of it ''SortKey'' = None
         \<and> map_of it ''Name'' = None \<and> map_of it ''IslandName'' = None
         \<and> map_of it ''DistrictName'' = None"
proof -
  from build_item_steps [OF assms] obtain fd props sk g it1 priority where
    f: "feature = PDict fd" and p: "dict_get fd ''properties'' (PDict []) = PDict props"
    and sk: "hierarchy_sk props = Inr sk"
    and c: "add_centroid l g
              (dict_get props ''ahupuaa'' (dict_get props ''name'' (PStr (''Ahupuaa_'' @ show_nat feature_index))))
              (dict_get props ''mokupuni'' (PStr ''Unknown''))
              (dict_get props ''moku'' (PStr ''Unknown''))
              (base_item (''AHUPUAA#'' @ py_str (repr l) (feature_id l feature_index fd props)) sk
                 (dict_get props ''ahupuaa'' (dict_get props ''name'' (PStr (''Ahupuaa_'' @ show_nat feature_index))))
                 (dict_get props ''mokupuni'' (PStr ''Unknown''))
                 (dict_get props ''moku'' (PStr ''Unknown'')) g) = Inr it1"
    and it: "it = add_metadata l data_version now feature
                  (add_properties l props
                    (add_hints priority
                      (add_geometry g
                        (add_bounds g (put ''DisplayPriority'' (N (show_int priority)) it1)))))"
    by blast
  have keys: "map_of it k = map_of
       (base_item (''AHUPUAA#'' @ py_str (repr l) (feature_id l feature_index fd props)) sk
          (dict_get props ''ahupuaa'' (dict_get props ''name'' (PStr (''Ahupuaa_'' @ show_nat feature_index))))
          (dict_get props ''mokupuni'' (PStr ''Unknown''))
          (dict_get props ''moku'' (PStr ''Unknown'')) g) k"
    if "k \<in> key_names" for k
    using that add_centroid_keeps [OF c that] by (simp add: it built_key)
  have meta: "map_of it ''Metadata''
             = Some (M [(''DataVersion'', N (show_int data_version)),
                        (''FeatureHash'', S (PStr (feature_hash l feature))),
                        (''LastUpdated'', S (PStr now))])"
    using assms by (rule built_metadata)
  show ?thesis
    using f p sk meta by (simp add: keys key_names_mem base_item_keys)
qed

theorem item_wire_names_witness:
  "build_item (stand_in ''{}'' ''ec54c4c3671683bffd8cba2e5d1bc087'') 1700000000 ''2024-01-01T00:00:00'' 3
     (PDict [(''properties'', PDict [(''name'', PStr ''Manoa''), (''objectid'', PInt 42)])]) \<noteq> Inl AttributeError
   \<and> (\<exists>it. build_item (stand_in ''{}'' ''ec54c4c3671683bffd8cba2e5d1bc087'') 1700000000 ''2024-01-01T00:00:00'' 3
          (PDict [(''properties'', PDict [(''name'', PStr ''Manoa''), (''objectid'', PInt 42)])]) = Inr it
        \<and> map_of it ''AhupuaaPK'' = Some (S (PStr ''AHUPUAA#42''))
        \<and> map_of it ''HierarchySK'' = Some (S (PStr ''MOKUPUNI#Unknown#MOKU#Unknown''))
        \<and> map_of it ''AhupuaaName'' = Some (S (PStr ''Manoa''))
        \<and> map_of it ''PrimaryKey'' = None)"
proof -
  let ?l = "stand_in ''{}'' ''ec54c4c3671683bffd8cba2e5d1bc087''"
  let ?f = "PDict [(''properties'', PDict [(''name'', PStr ''Manoa''), (''objectid'', PInt 42)])]"
  have "\<exists>it. build_item ?l 1700000000 ''2024-01-01T00:00:00'' 3 ?f = Inr it"
    by (simp add: build_item_def stand_in_def dict_get_def format_hierarchical_key_def py_or_def
        add_centroid_def no_geometry_def display_priority_absent Let_def)
  then obtain it where b: "build_item ?l 1700000000 ''2024-01-01T00:00:00'' 3 ?f = Inr it"
    by blast
  from item_wire_names [OF b] have
    "map_of it ''AhupuaaPK'' = Some (S (PStr ''AHUPUAA#42''))
     \<and> map_of it ''HierarchySK'' = Some (S (PStr ''MOKUPUNI#Unknown#MOKU#Unknown''))
     \<and> map_of it ''AhupuaaName'' = Some (S (PStr ''Manoa''))
     \<and> map_of it ''PrimaryKey'' = None"
    by (auto simp: dict_get_def feature_id_def stand_in_def hierarchy_sk_def format_hierarchical_key_def
        py_or_def strip_def is_space_def show_int_def show_nat.simps digit_char_def)
  with b show ?thesis by auto
qed

text \<open>
  C9. The digest stored with an item is the MD5 digest of the key-sorted encoding of the
  feature, so two runs that build an item for the same feature store the same digest,
  whatever their data version, timestamp and the feature's position. (The item stores it
  under the name \<open>FeatureHash\<close>.)
\<close>

theorem content_hash_deterministic:
  assumes "build_item l data_version now feature_index feature = Inr it"
    and "build_item l data_version' now' feature_index' feature = Inr it'"
  shows "hash_of it = Some (S (PStr (md5_hex l (dumps_sorted l feature))))
     \<and> hash_of it' = hash_of it"
  using built_metadata [OF assms(1)] built_metadata [OF assms(2)]
  by (simp add: hash_of_def feature_hash_def)

theorem content_hash_deterministic_witness:
  "\<exists>it it'.
      build_item (stand_in ''{}'' ''ec54c4c3671683bffd8cba2e5d1bc087'') 1700000000 ''2024-01-01T00:00:00'' 0
        (PDict [(''id'', PStr ''7'')]) = Inr it
    \<and> build_item (stand_in ''{}'' ''ec54c4c3671683bffd8cba2e5d1bc087'') 1800000000 ''2027-01-15T12:00:00'' 5
        (PDict [(''id'', PStr ''7'')]) = Inr it'
    \<and> hash_of it = Some (S (PStr ''ec54c4c3671683bffd8cba2e5d1bc087''))
    \<and> hash_of it' = hash_of it"
proof -
  let ?l = "stand_in ''{}'' ''ec54c4c3671683bffd8cba2e5d1bc087''"
  let ?f = "PDict [(''id'', PStr ''7'')]"
  have "\<exists>it. build_item ?l 1700000000 ''2024-01-01T00:00:00'' 0 ?f = Inr it"
    by (simp add: build_item_def stand_in_def dict_get_def format_hierarchical_key_def py_or_def
        add_centroid_def no_geometry_def display_priority_absent Let_def)
  then obtain it where a: "build_item ?l 1700000000 ''2024-01-01T00:00:00'' 0 ?f = Inr it"
    by blast
  have "\<exists>it'. build_item ?l 1800000000 ''2027-01-15T12:00:00'' 5 ?f = Inr it'"
    by (simp add: build_item_def stand_in_def dict_get_def format_hierarchical_key_def py_or_def
        add_centroid_def no_geometry_def display_priority_absent Let_def)
  then obtain it' where b: "build_item ?l 1800000000 ''2027-01-15T12:00:00'' 5 ?f = Inr it'"
    by blast
  from content_hash_deterministic [OF a b] have
    "hash_of it = Some (S (PStr ''ec54c4c3671683bffd8cba2e5d1bc087'')) \<and> hash_of it' = hash_of it"
    by (simp add: stand_in_def)
  with a b show ?thesis by blast
qed

section \<open>Properties of the streaming importer\<close>

text \<open>
  C2 does not hold of the code. The limit is compared with \<open>total_processed\<close>, which grows
  only when a batch of 25 is written: with a limit of 2 and three features, all three are
  batched, written by the final flush and reported as imported.
\<close>

theorem test_limit_overrun:
  "process_geojson accepting True 2 [Inr ''a'', Inr ''b'', Inr ''c'']
   = (True, \<lparr>batch = [''a'', ''b'', ''c''], total_processed = 3, written = [[''a'', ''b'', ''c'']]\<rparr>)"
  by (simp add: process_geojson_def BATCH_SIZE_def MAX_RETRIES_def write_batch_to_dynamo_def
      group_results_def batches_of.simps process_batch_def process_batch_loop.simps accepting_def)

end
